theory Spec2Isabelle
  imports Main
begin

section \<open>JavaScript strings\<close>

text \<open>
  A JavaScript string is a sequence of UTF-16 code units; \<open>length\<close>, \<open>startsWith\<close>,
  \<open>substring\<close>, \<open>slice\<close> and the regular expressions of the source (none has the \<open>u\<close> flag)
  all work on code units. A code unit is modelled as a natural number, a string as the
  list of its code units, and \<open>js\<close> turns an ASCII literal into that list.
\<close>

type_synonym jsstring = "nat list"

definition js :: "string \<Rightarrow> jsstring" where
  "js s = map of_char s"

text \<open>The class \<open>\d\<close>: the ten ASCII digits. \<open>\D\<close> is its complement.\<close>

definition isDigit :: "nat \<Rightarrow> bool" where
  "isDigit u \<longleftrightarrow> 48 \<le> u \<and> u \<le> 57"

text \<open>
  The class \<open>\s\<close>, which is also what \<open>trimEnd\<close> removes: ECMAScript's WhiteSpace and
  LineTerminator code points (TAB, LF, VT, FF, CR, SP, NBSP, U+1680, U+2000..U+200A,
  U+2028, U+2029, U+202F, U+205F, U+3000, U+FEFF).
\<close>

definition isSpace :: "nat \<Rightarrow> bool" where
  "isSpace u \<longleftrightarrow>
     (9 \<le> u \<and> u \<le> 13) \<or> u = 32 \<or> u = 160 \<or> u = 5760 \<or> (8192 \<le> u \<and> u \<le> 8202) \<or>
     u = 8232 \<or> u = 8233 \<or> u = 8239 \<or> u = 8287 \<or> u = 12288 \<or> u = 65279"

text \<open>\<open>s.startsWith(p)\<close>\<close>

fun startsWith :: "jsstring \<Rightarrow> jsstring \<Rightarrow> bool" where
  "startsWith s [] = True"
| "startsWith [] (p # ps) = False"
| "startsWith (c # cs) (p # ps) = (c = p \<and> startsWith cs ps)"

text \<open>\<open>s.includes(p)\<close>: \<open>p\<close> occurs at some position of \<open>s\<close>.\<close>

fun includesStr :: "jsstring \<Rightarrow> jsstring \<Rightarrow> bool" where
  "includesStr [] p = startsWith [] p"
| "includesStr (c # cs) p = (startsWith (c # cs) p \<or> includesStr cs p)"

text \<open>\<open>s.trimEnd()\<close>\<close>

definition trimEnd :: "jsstring \<Rightarrow> jsstring" where
  "trimEnd s = rev (dropWhile isSpace (rev s))"

text \<open>\<open>s.slice(-n)\<close>: the last \<open>n\<close> code units (all of \<open>s\<close> when it is shorter).\<close>

definition sliceLast :: "nat \<Rightarrow> jsstring \<Rightarrow> jsstring" where
  "sliceLast n s = drop (length s - n) s"

section \<open>Phone canonicalizer (\<open>normalizePhoneNumber\<close>, services/dataService.ts)\<close>

definition sentinel :: jsstring where
  "sentinel = js ''00000000000''"

text \<open>\<open>phone.replace(/\D/g, '')\<close>\<close>

definition stripNonDigits :: "jsstring \<Rightarrow> jsstring" where
  "stripNonDigits phone = filter isDigit phone"

definition normalizePhoneNumber :: "jsstring \<Rightarrow> jsstring" where
  "normalizePhoneNumber phone =
     (if phone = [] then sentinel
      else let cleaned = stripNonDigits phone in
        if length cleaned = 0 then sentinel
        else let cleaned' =
               (if startsWith cleaned (js ''8'') then js ''7'' @ drop 1 cleaned
                else if length cleaned = 10 then js ''7'' @ cleaned
                else cleaned)
             in if length cleaned' > 11 then sliceLast 11 cleaned' else cleaned')"

section \<open>Scoring engine (\<open>calculateResults\<close>)\<close>

text \<open>
  \<open>Answers = Record<number, number>\<close>: a dictionary from question id to the chosen
  magnitude. \<open>ScoringResult\<close> has the four axis values and the four-letter \<open>type\<close>.
\<close>

type_synonym Answers = "nat \<rightharpoonup> int"

record ScoringResult =
  EI :: int
  SN :: int
  FT :: int
  JP :: int
  type :: jsstring

text \<open>\<open>getVal(id) = currentAnswers[id] ?? 3\<close>\<close>

definition getVal :: "Answers \<Rightarrow> nat \<Rightarrow> int" where
  "getVal currentAnswers i = (case currentAnswers i of None \<Rightarrow> 3 | Some v \<Rightarrow> v)"

definition calculateResults :: "Answers \<Rightarrow> ScoringResult" where
  "calculateResults currentAnswers =
     (let g = getVal currentAnswers;
          ieValue = 30 - g 3 - g 7 - g 11 + g 15 - g 19 + g 23 + g 27 - g 31;
          snValue = 12 + g 4 + g 8 + g 12 + g 16 + g 20 - g 24 - g 28 + g 32;
          ftValue = 30 - g 2 + g 6 + g 10 - g 14 - g 18 + g 22 - g 26 - g 30;
          jpValue = 18 + g 1 + g 5 - g 9 + g 13 - g 17 + g 21 - g 25 + g 29;
          ei = (if ieValue > 24 then js ''E'' else js ''I'');
          sn = (if snValue > 24 then js ''N'' else js ''S'');
          ft = (if ftValue > 24 then js ''T'' else js ''F'');
          jp = (if jpValue > 24 then js ''P'' else js ''J'')
      in \<lparr>EI = ieValue, SN = snValue, FT = ftValue, JP = jpValue, type = ei @ sn @ ft @ jp\<rparr>)"

text \<open>
  The claim's reading of one answer: the magnitude recorded for item \<open>n\<close>, or 3 when
  the item is absent.
\<close>

definition magnitude :: "Answers \<Rightarrow> nat \<Rightarrow> int" where
  "magnitude a n = (if n \<in> dom a then the (a n) else 3)"

definition axisLetter :: "int \<Rightarrow> string \<Rightarrow> string \<Rightarrow> jsstring" where
  "axisLetter v first second = (if 24 < v then js first else js second)"

section \<open>Message tag codec (\<open>getChatHistory\<close> and \<open>rateMessage\<close>, services/dataService.ts)\<close>

text \<open>
  A rating is \<open>'like' | 'dislike'\<close>; its absence (\<open>undefined\<close> in a message, \<open>null\<close> as the
  argument of \<open>rateMessage\<close>) is \<open>None\<close>. \<open>TagName\<close> is the captured group of the tag
  pattern.
\<close>

datatype Rating = Like | Dislike

datatype TagName = T_like | T_dislike | T_neutral

text \<open>
  The pattern \<open>/\[TAG:(like|dislike|neutral)\]\s*$/\<close> tried at the first code unit of
  \<open>s\<close>: one of the three tags, then white space only up to the end of the string (the
  greedy \<open>\s*\<close> followed by \<open>$\<close>, without the \<open>m\<close> flag). The result is the captured group.
\<close>

definition matchTagHere :: "jsstring \<Rightarrow> TagName option" where
  "matchTagHere s =
     (if startsWith s (js ''[TAG:like]'') \<and> list_all isSpace (drop 10 s) then Some T_like
      else if startsWith s (js ''[TAG:dislike]'') \<and> list_all isSpace (drop 13 s) then Some T_dislike
      else if startsWith s (js ''[TAG:neutral]'') \<and> list_all isSpace (drop 13 s) then Some T_neutral
      else None)"

text \<open>
  \<open>text.match(/\[TAG:(like|dislike|neutral)\]\s*$/)\<close>: the leftmost position where the
  pattern matches, as the text before the match and the captured group.
\<close>

fun tagMatch :: "jsstring \<Rightarrow> (jsstring \<times> TagName) option" where
  "tagMatch [] = map_option (Pair []) (matchTagHere [])"
| "tagMatch (c # cs) =
     (case matchTagHere (c # cs) of
        Some tag \<Rightarrow> Some ([], tag)
      | None \<Rightarrow> map_option (\<lambda>(before, tag). (c # before, tag)) (tagMatch cs))"

text \<open>
  \<open>text.replace(/\[TAG:(like|dislike|neutral)\]\s*$/, '')\<close>: the match runs to the end of
  the string, so what is left is the text before it; without a match the text is unchanged.
\<close>

definition stripTrailingTag :: "jsstring \<Rightarrow> jsstring" where
  "stripTrailingTag s = (case tagMatch s of None \<Rightarrow> s | Some (before, tag) \<Rightarrow> before)"

text \<open>
  The pattern \<open>/ #liked| #disliked| #neutral/\<close> tried at the first code unit of \<open>s\<close>: the
  length of the alternative that matches.
\<close>

definition legacyAt :: "jsstring \<Rightarrow> nat option" where
  "legacyAt s =
     (if startsWith s (js '' #liked'') then Some 7
      else if startsWith s (js '' #disliked'') then Some 10
      else if startsWith s (js '' #neutral'') then Some 9
      else None)"

text \<open>
  \<open>text.replace(/ #liked| #disliked| #neutral/g, '')\<close>: one pass from left to right; a
  match is dropped and the scan goes on after it, any other code unit is kept.
\<close>

function removeLegacy :: "jsstring \<Rightarrow> jsstring" where
  "removeLegacy [] = []"
| "removeLegacy (c # cs) =
     (case legacyAt (c # cs) of
        Some n \<Rightarrow> removeLegacy (drop n (c # cs))
      | None \<Rightarrow> c # removeLegacy cs)"
  by pat_completeness auto
termination
  by (relation "measure length") (auto simp: legacyAt_def split: if_splits)

text \<open>
  Decode: the body of the \<open>data.map\<close> callback of \<open>getChatHistory\<close> (lines 250 to 277),
  from the stored content (\<open>d.content || ''\<close>) to the pair of \<open>text\<close> and \<open>rating\<close>.
\<close>

definition decodeContent :: "jsstring \<Rightarrow> jsstring \<times> Rating option" where
  "decodeContent content =
     (case tagMatch content of
        Some (before, tag) \<Rightarrow>
          (trimEnd (stripTrailingTag content),
           if tag = T_like then Some Like else if tag = T_dislike then Some Dislike else None)
      | None \<Rightarrow>
          (trimEnd (removeLegacy content),
           if includesStr content (js '' #liked'') then Some Like
           else if includesStr content (js '' #disliked'') then Some Dislike
           else None))"

text \<open>
  Encode: steps 2 and 3 of \<open>rateMessage\<close> (lines 343 to 356). \<open>cleanContent\<close> strips the
  trailing tag, then the legacy markers, then trailing white space; \<open>newSuffix\<close> is the
  tag of the rating; \<open>newContent\<close> is what is written back. The same three replacements
  make \<open>cleanDb\<close> in the lookup by content (lines 317 to 320).
\<close>

definition cleanContent :: "jsstring \<Rightarrow> jsstring" where
  "cleanContent originalContent = trimEnd (removeLegacy (stripTrailingTag originalContent))"

definition newSuffix :: "Rating option \<Rightarrow> jsstring" where
  "newSuffix rating =
     (if rating = Some Dislike then js ''[TAG:dislike]''
      else if rating = Some Like then js ''[TAG:like]''
      else js ''[TAG:neutral]'')"

definition newContent :: "jsstring \<Rightarrow> Rating option \<Rightarrow> jsstring" where
  "newContent originalContent rating = cleanContent originalContent @ newSuffix rating"

subsection \<open>Vocabulary of the codec's properties\<close>

text \<open>The text of a bracket tag, and the tag that stands for a rating.\<close>

fun tagText :: "TagName \<Rightarrow> jsstring" where
  "tagText T_like = js ''[TAG:like]''"
| "tagText T_dislike = js ''[TAG:dislike]''"
| "tagText T_neutral = js ''[TAG:neutral]''"

fun tagOf :: "Rating option \<Rightarrow> TagName" where
  "tagOf (Some Like) = T_like"
| "tagOf (Some Dislike) = T_dislike"
| "tagOf None = T_neutral"

text \<open>A legacy marker; a string that holds one; a string that holds no tag of either form.\<close>

definition isMarker :: "jsstring \<Rightarrow> bool" where
  "isMarker m \<longleftrightarrow> m = js '' #liked'' \<or> m = js '' #disliked'' \<or> m = js '' #neutral''"

definition hasLegacy :: "jsstring \<Rightarrow> bool" where
  "hasLegacy t \<longleftrightarrow>
     includesStr t (js '' #liked'') \<or> includesStr t (js '' #disliked'') \<or>
     includesStr t (js '' #neutral'')"

definition tagFree :: "jsstring \<Rightarrow> bool" where
  "tagFree t \<longleftrightarrow>
     \<not> (includesStr t (js ''[TAG:like]'') \<or> includesStr t (js ''[TAG:dislike]'') \<or>
        includesStr t (js ''[TAG:neutral]'') \<or> includesStr t (js '' #liked'') \<or>
        includesStr t (js '' #disliked'') \<or> includesStr t (js '' #neutral''))"

section \<open>Remote store (services/dataService.ts)\<close>

text \<open>
  The functions of the data service talk to the store through \<open>fetch\<close>. A call is
  modelled by the request it sends and by what the promise settles to: an exception
  (\<open>Inl\<close>, a rejected promise) or a response with its status and the outcome of reading
  its body as JSON. The store itself is a parameter, \<open>remote\<close>, a function from the
  request to that outcome.
\<close>

datatype Exn = TypeError | NetworkError | SyntaxError

datatype Role = User | Model

text \<open>
  \<open>ChatMessageData\<close> (types.ts), without the two time stamps, which no function modelled
  here reads. The fields are \<open>id\<close>, \<open>role\<close>, \<open>text\<close> and \<open>rating\<close>; an absent \<open>id\<close> or
  \<open>rating\<close> is \<open>None\<close>.
\<close>

record ChatMessageData =
  msg_id :: "nat option"
  msg_role :: Role
  msg_text :: jsstring
  msg_rating :: "Rating option"

text \<open>A row of \<open>chat_history\<close> as the store returns it: \<open>id\<close> and \<open>content\<close>.\<close>

record ChatRow =
  row_id :: nat
  row_content :: jsstring

text \<open>\<open>RegistrationData\<close> (types.ts); the field \<open>phone\<close> is \<open>user_phone\<close> here.\<close>

record RegistrationData =
  firstName :: jsstring
  lastName :: jsstring
  user_phone :: jsstring
  age :: jsstring
  password :: "jsstring option"
  interests :: "jsstring list option"

text \<open>
  The body of the upsert of \<open>saveResultToSpreadsheet\<close>, as the data it is made of: the
  canonical phone, the profile and the result (the parsed age and the time stamp are
  not modelled).
\<close>

record ResultPayload =
  payload_phone :: jsstring
  payload_user :: RegistrationData
  payload_result :: ScoringResult

text \<open>
  The requests of the functions modelled here:
  \<^item> \<open>GET_recent phone role\<close>: \<open>chat_history?phone=eq.phone&role=eq.role&order=created_at.desc&limit=5\<close>
    (line 309);
  \<^item> \<open>GET_content id\<close>: \<open>chat_history?id=eq.id&select=content\<close> (line 329);
  \<^item> \<open>PATCH_content id content\<close>: the update of one row's content (line 359);
  \<^item> \<open>POST_chat phone role content\<close>: the insert of \<open>saveChatMessage\<close> (line 222);
  \<^item> \<open>POST_result payload\<close>: the upsert of \<open>saveResultToSpreadsheet\<close> (line 139).
\<close>

datatype Request =
    GET_recent jsstring Role
  | GET_content nat
  | PATCH_content nat jsstring
  | POST_chat jsstring Role jsstring
  | POST_result ResultPayload

text \<open>
  What \<open>response.json()\<close> finds: a body that is not JSON, an array of rows, or another
  JSON value without a \<open>length\<close> (an object, a number, \<open>null\<close>).
\<close>

datatype Body = NotJson | JsonRows "ChatRow list" | JsonOther

record Response =
  status :: nat
  body :: Body

type_synonym Remote = "Request \<Rightarrow> Exn + Response"

text \<open>
  \<open>SUPABASE_URL\<close> and \<open>SUPABASE_ANON_KEY\<close> come from constants.ts, which is not among the
  sources: they are parameters of the model.
\<close>

record Config =
  SUPABASE_URL :: jsstring
  SUPABASE_ANON_KEY :: jsstring

text \<open>\<open>response.ok\<close>: a status from 200 to 299.\<close>

definition ok :: "Response \<Rightarrow> bool" where
  "ok response \<longleftrightarrow> 200 \<le> status response \<and> status response \<le> 299"

text \<open>\<open>response.json()\<close>: rejects with a \<open>SyntaxError\<close> when the body is not JSON.\<close>

definition json :: "Response \<Rightarrow> Exn + Body" where
  "json response = (case body response of NotJson \<Rightarrow> Inl SyntaxError | b \<Rightarrow> Inr b)"

text \<open>
  \<open>try { ... } catch (e) { ... }\<close> and \<open>promise.catch(...)\<close>; and sequencing, where a
  rejection skips what follows.
\<close>

definition catch :: "Exn + 'a \<Rightarrow> (Exn \<Rightarrow> Exn + 'a) \<Rightarrow> Exn + 'a" where
  "catch p handler = (case p of Inl e \<Rightarrow> handler e | Inr v \<Rightarrow> Inr v)"

definition andThen :: "Exn + 'a \<Rightarrow> ('a \<Rightarrow> Exn + 'b) \<Rightarrow> Exn + 'b" where
  "andThen p k = (case p of Inl e \<Rightarrow> Inl e | Inr v \<Rightarrow> k v)"

text \<open>
  \<open>saveResultToSpreadsheet(result, user)\<close> (lines 119 to 158): what the returned promise
  settles to, and the requests sent.
\<close>

definition saveResultToSpreadsheet ::
  "Config \<Rightarrow> Remote \<Rightarrow> ScoringResult \<Rightarrow> RegistrationData \<Rightarrow> (Exn + bool) \<times> Request list" where
  "saveResultToSpreadsheet cfg remote finalResult user =
     (if SUPABASE_URL cfg = [] \<or> SUPABASE_ANON_KEY cfg = [] then (Inr False, [])
      else
        let cleanPhone = normalizePhoneNumber (user_phone user);
            request = POST_result
              \<lparr>payload_phone = cleanPhone, payload_user = user, payload_result = finalResult\<rparr>
        in (catch
              (andThen (remote request) (\<lambda>response.
                 if ok response then Inr True
                 else andThen (catch (json response) (\<lambda>e. Inr JsonOther)) (\<lambda>errData.
                        Inr (status response = 409))))
              (\<lambda>error. Inr False),
            [request]))"

text \<open>
  \<open>saveChatMessage(phone, role, content)\<close> (lines 211 to 232): the requests sent. A
  failure of the \<open>fetch\<close> is swallowed by the empty \<open>catch\<close>.
\<close>

definition saveChatMessage :: "jsstring \<Rightarrow> Role \<Rightarrow> jsstring \<Rightarrow> Request list" where
  "saveChatMessage phone role content =
     (let cleanPhone = normalizePhoneNumber phone in
      if cleanPhone = sentinel then []
      else
        let finalContent = (if role = Model then content @ js ''[TAG:neutral]'' else content)
        in [POST_chat cleanPhone role finalContent])"

text \<open>
  \<open>rateMessage(phone, message, rating)\<close> (lines 299 to 372): the requests sent, in order,
  and whether the \<open>catch\<close> block has logged an error. \<open>writeBack\<close> is steps 2 to 4, the
  re-encoding and the \<open>PATCH\<close>. The test \<open>!recordId\<close> holds for an absent id and for 0.
\<close>

record RateOutcome =
  requests :: "Request list"
  logged :: bool

definition writeBack ::
  "Remote \<Rightarrow> Request list \<Rightarrow> nat \<Rightarrow> jsstring \<Rightarrow> Rating option \<Rightarrow> RateOutcome" where
  "writeBack remote sent recordId originalContent rating =
     (let request = PATCH_content recordId (newContent originalContent rating)
      in \<lparr>requests = sent @ [request],
          logged = (case remote request of Inl e \<Rightarrow> True | Inr response \<Rightarrow> False)\<rparr>)"

definition rateMessage ::
  "Remote \<Rightarrow> jsstring \<Rightarrow> ChatMessageData \<Rightarrow> Rating option \<Rightarrow> RateOutcome" where
  "rateMessage remote phone message rating =
     (let cleanPhone = normalizePhoneNumber phone in
      if cleanPhone = sentinel then \<lparr>requests = [], logged = False\<rparr>
      else if msg_id message = None \<or> msg_id message = Some 0 then
        (let query = GET_recent cleanPhone (msg_role message) in
         case remote query of
           Inl e \<Rightarrow> \<lparr>requests = [query], logged = True\<rparr>
         | Inr fetchResponse \<Rightarrow>
             if ok fetchResponse then
               (case body fetchResponse of
                  NotJson \<Rightarrow> \<lparr>requests = [query], logged = True\<rparr>
                | JsonOther \<Rightarrow> \<lparr>requests = [query], logged = True\<rparr>
                | JsonRows records \<Rightarrow>
                    (case find (\<lambda>r. cleanContent (row_content r) = msg_text message) records of
                       None \<Rightarrow> \<lparr>requests = [query], logged = False\<rparr>
                     | Some found \<Rightarrow>
                         if row_id found = 0 then \<lparr>requests = [query], logged = False\<rparr>
                         else writeBack remote [query] (row_id found) (row_content found) rating))
             else \<lparr>requests = [query], logged = False\<rparr>)
      else
        (let recordId = the (msg_id message);
             query = GET_content recordId in
         case remote query of
           Inl e \<Rightarrow> \<lparr>requests = [query], logged = True\<rparr>
         | Inr fetchResponse \<Rightarrow>
             if ok fetchResponse then
               (case body fetchResponse of
                  NotJson \<Rightarrow> \<lparr>requests = [query], logged = True\<rparr>
                | JsonOther \<Rightarrow> writeBack remote [query] recordId (msg_text message) rating
                | JsonRows data \<Rightarrow>
                    (case data of
                       [] \<Rightarrow> writeBack remote [query] recordId (msg_text message) rating
                     | d # ds \<Rightarrow> writeBack remote [query] recordId (row_content d) rating))
             else writeBack remote [query] recordId (msg_text message) rating))"

subsection \<open>Vocabulary of the remote properties\<close>

text \<open>The store is configured; the upsert request; the upsert counts as saved.\<close>

definition configured :: "Config \<Rightarrow> bool" where
  "configured cfg \<longleftrightarrow> SUPABASE_URL cfg \<noteq> [] \<and> SUPABASE_ANON_KEY cfg \<noteq> []"

definition resultRequest :: "ScoringResult \<Rightarrow> RegistrationData \<Rightarrow> Request" where
  "resultRequest finalResult user =
     POST_result \<lparr>payload_phone = normalizePhoneNumber (user_phone user), payload_user = user,
       payload_result = finalResult\<rparr>"

definition saveSucceeds :: "Config \<Rightarrow> Remote \<Rightarrow> ScoringResult \<Rightarrow> RegistrationData \<Rightarrow> bool" where
  "saveSucceeds cfg remote finalResult user \<longleftrightarrow>
     configured cfg \<and>
     (case remote (resultRequest finalResult user) of
        Inl e \<Rightarrow> False
      | Inr response \<Rightarrow> ok response \<or> status response = 409)"

text \<open>
  No candidate matches: the answer to the lookup query has no row whose cleaned content
  is the text (an answer without rows has none).
\<close>

definition noCandidate :: "Remote \<Rightarrow> Request \<Rightarrow> jsstring \<Rightarrow> bool" where
  "noCandidate remote query txt \<longleftrightarrow>
     (case remote query of
        Inr resp \<Rightarrow>
          (case body resp of
             JsonRows records \<Rightarrow> find (\<lambda>r. cleanContent (row_content r) = txt) records = None
           | other \<Rightarrow> True)
      | Inl e \<Rightarrow> True)"

text \<open>A configured store and a store that answers every request with the same two rows.\<close>

definition cfg0 :: Config where
  "cfg0 = \<lparr>SUPABASE_URL = js ''https://db.example'', SUPABASE_ANON_KEY = js ''key''\<rparr>"

definition remote1 :: Remote where
  "remote1 = (\<lambda>request. Inr \<lparr>status = 200, body = JsonRows
      [\<lparr>row_id = 7, row_content = js ''hi[TAG:neutral]''\<rparr>,
       \<lparr>row_id = 5, row_content = js ''hi #liked''\<rparr>]\<rparr>)"

text \<open>Two messages not yet confirmed by the store.\<close>

definition msgHi :: ChatMessageData where
  "msgHi = \<lparr>msg_id = None, msg_role = Model, msg_text = js ''hi'', msg_rating = None\<rparr>"

definition msgBye :: ChatMessageData where
  "msgBye = \<lparr>msg_id = None, msg_role = Model, msg_text = js ''bye'', msg_rating = None\<rparr>"

section \<open>Flow controller (the \<open>App\<close> component)\<close>

text \<open>
  The state of the component is the record of its state variables, together with what
  its functions act on outside React: \<open>localStorage\<close>, the trace of the calls of
  \<open>setResult\<close>, of the storage writes and of the requests in the order in which they
  happen, the pending timeouts and a clock. A handler is a function from the state of
  the last render to the next state; a callback given to \<open>setTimeout\<close> is a \<open>Timer\<close>
  value that holds what its closure has captured.
  The clock moves only when a timeout fires, and the wait for the store inside
  \<open>finishQuiz\<close> takes no time. The sound, the background request of \<open>fetchAnalysis\<close> and a
  failure of \<open>localStorage.setItem\<close> are not modelled.
\<close>

datatype ViewState =
  V_welcome | V_auth_choice | V_login | V_register | V_interests | V_tutorial | V_quiz | V_result

text \<open>What \<open>localStorage\<close> holds: the JSON text of a result or of a profile, or a string.\<close>

datatype Stored = JSON_result ScoringResult | JSON_user RegistrationData | Plain jsstring

datatype Effect = SetResult ScoringResult | SetItem jsstring Stored | Fetch Request

text \<open>
  The callbacks of \<open>setTimeout\<close>:
  \<^item> \<open>T_pulse\<close>, 400 ms after an accepted selection (line 390), with the \<open>currentStep\<close>,
    \<open>updatedAnswers\<close> and \<open>registration\<close> of the render of the click;
  \<^item> \<open>T_show100\<close>, 600 ms later on the last question (line 398);
  \<^item> \<open>T_shatter\<close>, 1200 ms after \<open>finishQuiz\<close> (line 405);
  \<^item> \<open>T_advance\<close>, the 300 ms transition forward (lines 414 and 430);
  \<^item> \<open>T_retreat\<close>, the 300 ms transition backward (line 443).
\<close>

datatype Timer =
    T_pulse int Answers RegistrationData
  | T_show100 Answers RegistrationData
  | T_shatter
  | T_advance
  | T_retreat

record App =
  view :: ViewState
  currentStep :: int
  isAnimating :: bool
  isPulsing :: bool
  isShattering :: bool
  isSending :: bool
  answers :: Answers
  registration :: RegistrationData
  result :: "ScoringResult option"
  authError :: jsstring
  resetTimer :: int
  localStorage :: "jsstring \<rightharpoonup> Stored"
  effects :: "Effect list"
  timers :: "(nat \<times> Timer) list"
  clock :: nat

definition STORAGE_KEY_RESULT :: jsstring where
  "STORAGE_KEY_RESULT = js ''personality_quiz_result_v16''"

definition STORAGE_KEY_USER :: jsstring where
  "STORAGE_KEY_USER = js ''personality_quiz_user_v16''"

text \<open>The message of line 376, as its code units (it is written in Cyrillic).\<close>

definition ERR_SAVE :: jsstring where
  "ERR_SAVE = [1054, 1096, 1080, 1073, 1082, 1072, 32, 1089, 1086, 1093, 1088, 1072, 1085,
     1077, 1085, 1080, 1103, 32, 1088, 1077, 1079, 1091, 1083, 1100, 1090, 1072, 1090, 1086,
     1074, 46]"

text \<open>The initial values of the \<open>useState\<close> calls (lines 189 to 205).\<close>

definition initialApp :: App where
  "initialApp =
     \<lparr>view = V_welcome, currentStep = 0, isAnimating = False, isPulsing = False,
      isShattering = False, isSending = False, answers = Map.empty,
      registration = \<lparr>firstName = [], lastName = [], user_phone = [], age = [],
                      password = Some [], interests = Some []\<rparr>,
      result = None, authError = [], resetTimer = 30, localStorage = Map.empty,
      effects = [], timers = [], clock = 0\<rparr>"

text \<open>\<open>localStorage.setItem(k, v)\<close> and \<open>setTimeout(callback, delay)\<close>\<close>

definition setItem :: "jsstring \<Rightarrow> Stored \<Rightarrow> App \<Rightarrow> App" where
  "setItem k v s =
     s\<lparr>localStorage := (localStorage s)(k \<mapsto> v), effects := effects s @ [SetItem k v]\<rparr>"

definition setTimeout :: "Timer \<Rightarrow> nat \<Rightarrow> App \<Rightarrow> App" where
  "setTimeout callback delay s = s\<lparr>timers := timers s @ [(clock s + delay, callback)]\<rparr>"

text \<open>
  \<open>QUESTIONS\<close> comes from constants.ts, which is not among the sources; only the ids of
  its items are read, so the list of these ids is a parameter. \<open>questionAt\<close> is
  \<open>QUESTIONS[i].id\<close>: outside the list \<open>QUESTIONS[i]\<close> is \<open>undefined\<close> and reading its
  \<open>id\<close> throws a \<open>TypeError\<close> (\<open>None\<close> here).
\<close>

definition questionAt :: "nat list \<Rightarrow> int \<Rightarrow> nat option" where
  "questionAt QUESTIONS i =
     (if 0 \<le> i \<and> i < int (length QUESTIONS) then Some (QUESTIONS ! nat i) else None)"

text \<open>
  \<open>finishQuiz(finalAnswers)\<close> (lines 355 to 380); \<open>reg\<close> is the \<open>registration\<close> of its
  closure. The first component is the exception with which the function stops, if any.
\<close>

definition finishQuiz ::
  "Config \<Rightarrow> Remote \<Rightarrow> RegistrationData \<Rightarrow> Answers \<Rightarrow> App \<Rightarrow> Exn option \<times> App" where
  "finishQuiz cfg remote reg finalAnswers s =
     (let s1 = s\<lparr>isSending := True, authError := []\<rparr>;
          finalResult = calculateResults finalAnswers;
          s2 = s1\<lparr>result := Some finalResult, effects := effects s1 @ [SetResult finalResult]\<rparr>;
          s3 = setItem STORAGE_KEY_RESULT (JSON_result finalResult) s2;
          s4 = setItem STORAGE_KEY_USER (JSON_user reg) s3;
          s5 = setItem (js ''user_phone'') (Plain (normalizePhoneNumber (user_phone reg))) s4;
          (saved, sent) = saveResultToSpreadsheet cfg remote finalResult reg;
          s6 = s5\<lparr>effects := effects s5 @ map Fetch sent\<rparr>
      in case saved of
           Inl e \<Rightarrow> (Some e, s6)
         | Inr saved \<Rightarrow>
             (let s7 = s6\<lparr>isSending := False, resetTimer := 30\<rparr>
              in (None, if \<not> saved then s7\<lparr>authError := ERR_SAVE\<rparr> else s7)))"

text \<open>
  \<open>handleOptionSelect(val)\<close> (lines 382 to 421), up to the call of \<open>setTimeout\<close>; the
  callbacks are in \<open>runTimer\<close>.
\<close>

definition handleOptionSelect :: "nat list \<Rightarrow> int \<Rightarrow> App \<Rightarrow> Exn + App" where
  "handleOptionSelect QUESTIONS val s =
     (if isAnimating s \<or> isPulsing s \<or> isShattering s then Inr s
      else case questionAt QUESTIONS (currentStep s) of
             None \<Rightarrow> Inl TypeError
           | Some qid \<Rightarrow>
               (let updatedAnswers = (answers s)(qid \<mapsto> val)
                in Inr (setTimeout (T_pulse (currentStep s) updatedAnswers (registration s)) 400
                         (s\<lparr>answers := updatedAnswers, isPulsing := True\<rparr>))))"

text \<open>\<open>handleNextStep()\<close> (lines 423 to 438)\<close>

definition handleNextStep :: "nat list \<Rightarrow> App \<Rightarrow> Exn + App" where
  "handleNextStep QUESTIONS s =
     (if isAnimating s \<or> isSending s \<or> isShattering s then Inr s
      else case questionAt QUESTIONS (currentStep s) of
             None \<Rightarrow> Inl TypeError
           | Some qid \<Rightarrow>
               (case answers s qid of
                  None \<Rightarrow> Inr s
                | Some currentAnswer \<Rightarrow>
                    if currentStep s < int (length QUESTIONS) - 1
                    then Inr (setTimeout T_advance 300 (s\<lparr>isAnimating := True\<rparr>))
                    else handleOptionSelect QUESTIONS currentAnswer s))"

text \<open>\<open>handlePrevStep()\<close> (lines 440 to 448)\<close>

definition handlePrevStep :: "App \<Rightarrow> App" where
  "handlePrevStep s =
     (if isAnimating s \<or> currentStep s = 0 \<or> isShattering s then s
      else setTimeout T_retreat 300 (s\<lparr>isAnimating := True\<rparr>))"

text \<open>
  The bodies of the callbacks. When the \<open>await\<close> of \<open>finishQuiz\<close> throws, the last timeout
  is never set.
\<close>

fun runTimer :: "Config \<Rightarrow> Remote \<Rightarrow> nat list \<Rightarrow> Timer \<Rightarrow> App \<Rightarrow> App" where
  "runTimer cfg remote QUESTIONS (T_pulse step updatedAnswers reg) s =
     (if step \<ge> int (length QUESTIONS) - 1
      then setTimeout (T_show100 updatedAnswers reg) 600
             (s\<lparr>currentStep := int (length QUESTIONS), isPulsing := False\<rparr>)
      else setTimeout T_advance 300 (s\<lparr>isAnimating := True\<rparr>))"
| "runTimer cfg remote QUESTIONS (T_show100 updatedAnswers reg) s =
     (case finishQuiz cfg remote reg updatedAnswers (s\<lparr>isShattering := True\<rparr>) of
        (Some e, s') \<Rightarrow> s'
      | (None, s') \<Rightarrow> setTimeout T_shatter 1200 s')"
| "runTimer cfg remote QUESTIONS T_shatter s = s\<lparr>isShattering := False, view := V_result\<rparr>"
| "runTimer cfg remote QUESTIONS T_advance s =
     s\<lparr>currentStep := currentStep s + 1, isAnimating := False, isPulsing := False\<rparr>"
| "runTimer cfg remote QUESTIONS T_retreat s =
     s\<lparr>currentStep := currentStep s - 1, isAnimating := False, isPulsing := False\<rparr>"

text \<open>
  The event loop: the pending timeout that is due first fires (the one set first among
  those due at the same time), at its due time.
\<close>

fun popEarliest :: "(nat \<times> Timer) list \<Rightarrow> ((nat \<times> Timer) \<times> (nat \<times> Timer) list) option" where
  "popEarliest [] = None"
| "popEarliest (t # ts) =
     (case popEarliest ts of
        None \<Rightarrow> Some (t, [])
      | Some (u, rest) \<Rightarrow> if fst t \<le> fst u then Some (t, ts) else Some (u, t # rest))"

definition fireNext :: "Config \<Rightarrow> Remote \<Rightarrow> nat list \<Rightarrow> App \<Rightarrow> App" where
  "fireNext cfg remote QUESTIONS s =
     (case popEarliest (timers s) of
        None \<Rightarrow> s
      | Some ((due, callback), rest) \<Rightarrow>
          runTimer cfg remote QUESTIONS callback (s\<lparr>timers := rest, clock := max (clock s) due\<rparr>))"

subsection \<open>The buttons of \<open>QuizContent\<close>\<close>

text \<open>
  \<open>QuizContent\<close> (lines 109 to 184) is rendered in the view \<open>quiz\<close> only (lines 1308 to
  1356), for the question at \<open>displayStep\<close>. A click reaches a handler only when the
  button is not \<open>disabled\<close> (lines 151, 168 and 176); an exception thrown by a handler
  leaves the state as it was.
\<close>

definition displayStep :: "nat list \<Rightarrow> App \<Rightarrow> int" where
  "displayStep QUESTIONS s = min (currentStep s) (int (length QUESTIONS) - 1)"

definition currentAnswer :: "nat list \<Rightarrow> App \<Rightarrow> int option" where
  "currentAnswer QUESTIONS s =
     (case questionAt QUESTIONS (displayStep QUESTIONS s) of
        None \<Rightarrow> None
      | Some qid \<Rightarrow> answers s qid)"

definition afterHandler :: "App \<Rightarrow> Exn + App \<Rightarrow> App" where
  "afterHandler s r = (case r of Inl e \<Rightarrow> s | Inr s' \<Rightarrow> s')"

definition clickOption :: "nat list \<Rightarrow> int \<Rightarrow> App \<Rightarrow> App" where
  "clickOption QUESTIONS v s =
     (if view s \<noteq> V_quiz \<or> isAnimating s \<or> isPulsing s then s
      else afterHandler s (handleOptionSelect QUESTIONS v s))"

definition clickPrev :: "nat list \<Rightarrow> App \<Rightarrow> App" where
  "clickPrev QUESTIONS s =
     (if view s \<noteq> V_quiz \<or> displayStep QUESTIONS s = 0 \<or> isAnimating s \<or> isPulsing s then s
      else handlePrevStep s)"

definition clickNext :: "nat list \<Rightarrow> App \<Rightarrow> App" where
  "clickNext QUESTIONS s =
     (if view s \<noteq> V_quiz \<or> currentAnswer QUESTIONS s = None \<or> isSending s \<or> isAnimating s
         \<or> isPulsing s then s
      else afterHandler s (handleNextStep QUESTIONS s))"

text \<open>An input of the respondent, a sequence of inputs, a burst of answer selections.\<close>

datatype Input = ClickOption int | ClickNext | ClickPrev

fun dispatch :: "nat list \<Rightarrow> Input \<Rightarrow> App \<Rightarrow> App" where
  "dispatch QUESTIONS (ClickOption v) s = clickOption QUESTIONS v s"
| "dispatch QUESTIONS ClickNext s = clickNext QUESTIONS s"
| "dispatch QUESTIONS ClickPrev s = clickPrev QUESTIONS s"

definition inputs :: "nat list \<Rightarrow> Input list \<Rightarrow> App \<Rightarrow> App" where
  "inputs QUESTIONS ins s = foldl (\<lambda>st i. dispatch QUESTIONS i st) s ins"

definition burst :: "nat list \<Rightarrow> int list \<Rightarrow> App \<Rightarrow> App" where
  "burst QUESTIONS vs s = foldl (\<lambda>st v. clickOption QUESTIONS v st) s vs"

subsection \<open>Vocabulary of the flow properties\<close>

text \<open>
  A state in which a click on an answer is accepted; a state of the quiz at rest, with
  no guard set and no timeout pending.
\<close>

definition accepts :: "nat list \<Rightarrow> App \<Rightarrow> bool" where
  "accepts QUESTIONS s \<longleftrightarrow>
     view s = V_quiz \<and> \<not> isAnimating s \<and> \<not> isPulsing s \<and> \<not> isShattering s \<and>
     questionAt QUESTIONS (currentStep s) \<noteq> None"

definition idle :: "App \<Rightarrow> bool" where
  "idle s \<longleftrightarrow>
     view s = V_quiz \<and> \<not> isAnimating s \<and> \<not> isPulsing s \<and> \<not> isShattering s \<and> timers s = []"

text \<open>
  Thirty-two questions with the ids 1 to 32; the quiz at rest on the question of index
  \<open>i\<close>; the quiz at rest on the last question with its answer recorded.
\<close>

definition QS32 :: "nat list" where
  "QS32 = [1, 2, 3, 4, 5, 6, 7, 8, 9, 10, 11, 12, 13, 14, 15, 16, 17, 18, 19, 20, 21, 22, 23, 24,
           25, 26, 27, 28, 29, 30, 31, 32]"

definition quizAt :: "int \<Rightarrow> App" where
  "quizAt i = initialApp\<lparr>view := V_quiz, currentStep := i\<rparr>"

definition lastAnswered :: App where
  "lastAnswered = (quizAt 31)\<lparr>answers := [32 \<mapsto> 4]\<rparr>"

text \<open>
  A run on the last question, through the buttons and the timeouts only. The answer 5 is
  clicked and its 400 ms timeout fires: \<open>pause32\<close> is the state of the pause in which the
  saturated progress shows. There the previous button is clicked, its 300 ms timeout
  fires and the answer 1 is clicked: \<open>revisit32\<close>. The timeout that is due next is the
  600 ms one of the first click: \<open>staleCommit\<close>. The four timeouts that are left fire:
  \<open>raceEnd\<close>.
\<close>

definition pause32 :: App where
  "pause32 = fireNext cfg0 remote1 QS32 (dispatch QS32 (ClickOption 5) (quizAt 31))"

definition revisit32 :: App where
  "revisit32 =
     dispatch QS32 (ClickOption 1) (fireNext cfg0 remote1 QS32 (dispatch QS32 ClickPrev pause32))"

definition staleCommit :: App where
  "staleCommit = fireNext cfg0 remote1 QS32 revisit32"

definition raceEnd :: App where
  "raceEnd = fireNext cfg0 remote1 QS32 (fireNext cfg0 remote1 QS32
     (fireNext cfg0 remote1 QS32 (fireNext cfg0 remote1 QS32 staleCommit)))"

section \<open>Properties of the scoring engine\<close>

lemma getVal_magnitude: "getVal a n = magnitude a n"
  by (cases "a n") (auto simp: getVal_def magnitude_def)

text \<open>The empty answer set: every axis is at the threshold, which selects the second letter.\<close>

lemma calculateResults_empty:
  "calculateResults Map.empty = \<lparr>EI = 24, SN = 24, FT = 24, JP = 24, type = js ''ISFJ''\<rparr>"
  by (simp add: calculateResults_def getVal_def js_def)

lemma calculateResults_type_length: "length (type (calculateResults a)) = 4"
  by (simp add: calculateResults_def Let_def js_def)

text \<open>
  Claim C1. For every answer set, \<open>calculateResults\<close> returns the four axis values as the
  four signed sums of the specification (an absent item counting as 3), and the type is
  the concatenation, in the order EI, SN, FT, JP, of E/N/T/P for an axis value strictly
  above 24 and I/S/F/J otherwise. The function has no failing branch: it is a total
  function of the answer set alone.
\<close>

theorem calculateResults_spec:
  fixes a :: Answers
  defines "m \<equiv> magnitude a"
  shows "calculateResults a =
     \<lparr>EI = 30 - m 3 - m 7 - m 11 + m 15 - m 19 + m 23 + m 27 - m 31,
      SN = 12 + m 4 + m 8 + m 12 + m 16 + m 20 - m 24 - m 28 + m 32,
      FT = 30 - m 2 + m 6 + m 10 - m 14 - m 18 + m 22 - m 26 - m 30,
      JP = 18 + m 1 + m 5 - m 9 + m 13 - m 17 + m 21 - m 25 + m 29,
      type = axisLetter (30 - m 3 - m 7 - m 11 + m 15 - m 19 + m 23 + m 27 - m 31) ''E'' ''I''
           @ axisLetter (12 + m 4 + m 8 + m 12 + m 16 + m 20 - m 24 - m 28 + m 32) ''N'' ''S''
           @ axisLetter (30 - m 2 + m 6 + m 10 - m 14 - m 18 + m 22 - m 26 - m 30) ''T'' ''F''
           @ axisLetter (18 + m 1 + m 5 - m 9 + m 13 - m 17 + m 21 - m 25 + m 29) ''P'' ''J''\<rparr>"
  unfolding m_def calculateResults_def Let_def axisLetter_def getVal_magnitude
  by (rule refl)

section \<open>Properties of the phone canonicalizer\<close>

lemma startsWith_single: "startsWith d [c] \<longleftrightarrow> d \<noteq> [] \<and> hd d = c"
  by (cases d) auto

lemma js_8: "js ''8'' = [56]" and js_7: "js ''7'' = [55]"
  by (simp_all add: js_def)

lemma sentinel_digits: "list_all isDigit sentinel" "length sentinel = 11"
  by (simp_all add: sentinel_def js_def isDigit_def)

lemma list_all_sliceLast: "list_all P xs \<Longrightarrow> list_all P (sliceLast n xs)"
  unfolding sliceLast_def list_all_iff by (auto dest: in_set_dropD)

lemma length_sliceLast: "length (sliceLast n xs) \<le> n"
  by (simp add: sliceLast_def)

lemma sliceLast_short: "length xs \<le> n \<Longrightarrow> sliceLast n xs = xs"
  by (simp add: sliceLast_def)

lemma list_all_stripNonDigits: "list_all isDigit (stripNonDigits s)"
  by (simp add: stripNonDigits_def list_all_iff)

text \<open>The function by cases on the digit string, with \<open>slice(-11)\<close> read uniformly.\<close>

lemma normalize_alt:
  "normalizePhoneNumber raw =
    (let d = stripNonDigits raw in
     if d = [] then sentinel
     else if hd d = 56 then sliceLast 11 (55 # tl d)
     else if length d = 10 then 55 # d
     else sliceLast 11 d)"
  by (cases "stripNonDigits raw")
     (auto simp: normalizePhoneNumber_def Let_def startsWith_single js_8 js_7 sliceLast_short
        stripNonDigits_def drop_Suc)

text \<open>
  Claim C2, as the code has it. With \<open>d\<close> the digits of the raw string (every other
  character is stripped): no digit gives the sentinel; a leading 8 is rewritten to 7 and
  nothing is prefixed, whatever the length; a string of 10 digits that does not start
  with 8 is prefixed with 7; any other digit string is kept; and the last 11 digits are
  kept of a result longer than 11. The result has digits only and at most 11 of them,
  and the two spellings of the specification's example canonicalize to 79151234567.
\<close>

theorem normalizePhoneNumber_spec:
  fixes raw :: jsstring
  defines "d \<equiv> stripNonDigits raw"
  shows "(d = [] \<longrightarrow> normalizePhoneNumber raw = sentinel)
       \<and> (\<forall>rest. d = js ''8'' @ rest \<longrightarrow>
             normalizePhoneNumber raw = sliceLast 11 (js ''7'' @ rest))
       \<and> (d \<noteq> [] \<and> \<not> startsWith d (js ''8'') \<and> length d = 10 \<longrightarrow>
             normalizePhoneNumber raw = js ''7'' @ d)
       \<and> (d \<noteq> [] \<and> \<not> startsWith d (js ''8'') \<and> length d \<noteq> 10 \<longrightarrow>
             normalizePhoneNumber raw = sliceLast 11 d)
       \<and> list_all isDigit (normalizePhoneNumber raw)
       \<and> length (normalizePhoneNumber raw) \<le> 11
       \<and> normalizePhoneNumber (js ''8 915 123 45 67'') = js ''79151234567''
       \<and> normalizePhoneNumber (js ''+7 (915) 123-45-67'') = js ''79151234567''"
proof -
  have ex1: "normalizePhoneNumber (js ''8 915 123 45 67'') = js ''79151234567''"
    by (simp add: normalize_alt stripNonDigits_def js_def isDigit_def sliceLast_def)
  have ex2: "normalizePhoneNumber (js ''+7 (915) 123-45-67'') = js ''79151234567''"
    by (simp add: normalize_alt stripNonDigits_def js_def isDigit_def sliceLast_def)
  have dig: "list_all isDigit (normalizePhoneNumber raw)"
    using list_all_stripNonDigits[of raw]
    by (cases "stripNonDigits raw")
       (auto simp: normalize_alt Let_def sentinel_digits isDigit_def intro!: list_all_sliceLast)
  have len: "length (normalizePhoneNumber raw) \<le> 11"
    by (auto simp: normalize_alt Let_def sentinel_digits length_sliceLast)
  show ?thesis
    unfolding d_def using ex1 ex2 dig len
    by (auto simp: normalize_alt Let_def startsWith_single js_8 js_7)
qed

text \<open>
  The theorem at four raw strings, one for each of its cases: no digit at all; a
  leading 8; ten digits without a leading 8; thirteen digits.
\<close>

theorem normalizePhoneNumber_spec_witness:
  "stripNonDigits (js ''+()-'') = []
   \<and> normalizePhoneNumber (js ''+()-'') = sentinel
   \<and> stripNonDigits (js ''8 (915) 123-45-67'') = js ''8'' @ js ''9151234567''
   \<and> normalizePhoneNumber (js ''8 (915) 123-45-67'') = js ''79151234567''
   \<and> length (stripNonDigits (js ''915 123 45 67'')) = 10
   \<and> normalizePhoneNumber (js ''915 123 45 67'') = js ''79151234567''
   \<and> length (stripNonDigits (js ''007 915 123 45 67'')) = 13
   \<and> normalizePhoneNumber (js ''007 915 123 45 67'') = js ''79151234567''"
proof -
  have a: "stripNonDigits (js ''+()-'') = []"
    by (simp add: stripNonDigits_def js_def isDigit_def)
  have b: "stripNonDigits (js ''8 (915) 123-45-67'') = js ''8'' @ js ''9151234567''"
    by (simp add: stripNonDigits_def js_def isDigit_def)
  have c: "stripNonDigits (js ''915 123 45 67'') = js ''9151234567''"
    by (simp add: stripNonDigits_def js_def isDigit_def)
  have d: "stripNonDigits (js ''007 915 123 45 67'') = js ''0079151234567''"
    by (simp add: stripNonDigits_def js_def isDigit_def)
  have c': "stripNonDigits (js ''915 123 45 67'') \<noteq> []
      \<and> \<not> startsWith (stripNonDigits (js ''915 123 45 67'')) (js ''8'')
      \<and> length (stripNonDigits (js ''915 123 45 67'')) = 10"
    unfolding c by (simp add: js_def)
  have d': "stripNonDigits (js ''007 915 123 45 67'') \<noteq> []
      \<and> \<not> startsWith (stripNonDigits (js ''007 915 123 45 67'')) (js ''8'')
      \<and> length (stripNonDigits (js ''007 915 123 45 67'')) \<noteq> 10"
    unfolding d by (simp add: js_def)
  note A = normalizePhoneNumber_spec[of "js ''+()-''"]
  note B = normalizePhoneNumber_spec[of "js ''8 (915) 123-45-67''"]
  note C = normalizePhoneNumber_spec[of "js ''915 123 45 67''"]
  note D = normalizePhoneNumber_spec[of "js ''007 915 123 45 67''"]
  have 1: "normalizePhoneNumber (js ''+()-'') = sentinel"
    using A a by blast
  have "normalizePhoneNumber (js ''8 (915) 123-45-67'') = sliceLast 11 (js ''7'' @ js ''9151234567'')"
    using B b by blast
  then have 2: "normalizePhoneNumber (js ''8 (915) 123-45-67'') = js ''79151234567''"
    by (simp add: sliceLast_def js_def)
  have "normalizePhoneNumber (js ''915 123 45 67'') = js ''7'' @ stripNonDigits (js ''915 123 45 67'')"
    using C c' by blast
  then have 3: "normalizePhoneNumber (js ''915 123 45 67'') = js ''79151234567''"
    unfolding c by (simp add: js_def)
  have "normalizePhoneNumber (js ''007 915 123 45 67'') = sliceLast 11 (stripNonDigits (js ''007 915 123 45 67''))"
    using D d' by blast
  then have 4: "normalizePhoneNumber (js ''007 915 123 45 67'') = js ''79151234567''"
    unfolding d by (simp add: sliceLast_def js_def)
  show ?thesis
    using a b c' d 1 2 3 4 by (simp add: js_def)
qed

text \<open>
  The claim as stated fails on a string of ten digits that starts with 8: the 8 is
  rewritten and the result keeps its ten digits, so it is neither the digit string nor
  the rewritten string with a 7 put in front.
\<close>

theorem normalizePhoneNumber_counterexample:
  "length (stripNonDigits (js ''8123456789'')) = 10
   \<and> normalizePhoneNumber (js ''8123456789'') = js ''7123456789''
   \<and> normalizePhoneNumber (js ''8123456789'') \<noteq> js ''7'' @ stripNonDigits (js ''8123456789'')
   \<and> normalizePhoneNumber (js ''8123456789'') \<noteq> js ''7'' @ js ''7123456789''"
  by (simp add: normalize_alt stripNonDigits_def js_def isDigit_def sliceLast_def)

section \<open>Properties of the tag codec\<close>

subsection \<open>Strings\<close>

lemma startsWith_iff: "startsWith s p \<longleftrightarrow> (\<exists>r. s = p @ r)"
  by (induction s p rule: startsWith.induct) auto

lemma startsWith_append: "startsWith s p \<Longrightarrow> startsWith (s @ r) p"
  by (auto simp: startsWith_iff)

lemma includesStr_iff: "includesStr s p \<longleftrightarrow> (\<exists>l r. s = l @ p @ r)"
proof (induction s)
  case Nil
  then show ?case by (auto simp: startsWith_iff)
next
  case (Cons c cs)
  show ?case
  proof
    assume "includesStr (c # cs) p"
    then consider "startsWith (c # cs) p" | "includesStr cs p" by auto
    then show "\<exists>l r. c # cs = l @ p @ r"
    proof cases
      case 1
      then obtain r where "c # cs = p @ r" by (auto simp: startsWith_iff)
      then have "c # cs = [] @ p @ r" by simp
      then show ?thesis by blast
    next
      case 2
      then obtain l r where "cs = l @ p @ r" using Cons.IH by blast
      then have "c # cs = (c # l) @ p @ r" by simp
      then show ?thesis by blast
    qed
  next
    assume "\<exists>l r. c # cs = l @ p @ r"
    then obtain l r where e: "c # cs = l @ p @ r" by blast
    show "includesStr (c # cs) p"
    proof (cases l)
      case Nil
      then have "startsWith (c # cs) p" using e by (auto simp: startsWith_iff)
      then show ?thesis by simp
    next
      case (Cons a l')
      then have "cs = l' @ p @ r" using e by simp
      then show ?thesis using Cons.IH by auto
    qed
  qed
qed

lemma includesStr_appendI1: "includesStr s p \<Longrightarrow> includesStr (s @ r) p"
  by (auto simp: includesStr_iff) (metis append.assoc)

lemma includesStr_appendI2: "includesStr s p \<Longrightarrow> includesStr (l @ s) p"
  by (auto simp: includesStr_iff) (metis append.assoc)

lemma trimEnd_decomp: "\<exists>ws. s = trimEnd s @ ws \<and> list_all isSpace ws"
proof -
  have "rev s = takeWhile isSpace (rev s) @ dropWhile isSpace (rev s)" by simp
  then have "s = rev (dropWhile isSpace (rev s)) @ rev (takeWhile isSpace (rev s))"
    by (metis rev_append rev_rev_ident)
  moreover have "list_all isSpace (rev (takeWhile isSpace (rev s)))"
    by (simp add: list_all_iff) (meson set_takeWhileD)
  ultimately show ?thesis unfolding trimEnd_def by blast
qed

lemma trimEnd_id: "s = [] \<or> \<not> isSpace (last s) \<Longrightarrow> trimEnd s = s"
  unfolding trimEnd_def by (cases s rule: rev_cases) auto

lemma trimEnd_last: "trimEnd s = [] \<or> \<not> isSpace (last (trimEnd s))"
  unfolding trimEnd_def
  by (metis (no_types, lifting) dropWhile_eq_Nil_conv hd_dropWhile last_rev rev_is_Nil_conv)

lemma trimEnd_idem: "trimEnd (trimEnd s) = trimEnd s"
  using trimEnd_last trimEnd_id by blast

lemma trimEnd_append_nonspace: "\<not> isSpace (last p) \<Longrightarrow> p \<noteq> [] \<Longrightarrow> trimEnd (s @ p) = s @ p"
  by (rule trimEnd_id) simp

subsection \<open>The trailing tag\<close>

lemma newSuffix_tagText: "newSuffix r = tagText (tagOf r)"
  by (cases r rule: tagOf.cases) (simp_all add: newSuffix_def)

lemma startsWith_drop: "startsWith s p \<Longrightarrow> s = p @ drop (length p) s"
  by (auto simp: startsWith_iff)

lemma matchTagHere_Some:
  assumes "matchTagHere s = Some tag"
  shows "\<exists>ws. s = tagText tag @ ws \<and> list_all isSpace ws"
proof -
  have l: "length (js ''[TAG:like]'') = 10" "length (js ''[TAG:dislike]'') = 13"
    "length (js ''[TAG:neutral]'') = 13" by (simp_all add: js_def)
  from assms show ?thesis
    unfolding matchTagHere_def
    by (auto split: if_splits dest!: startsWith_drop simp: l)
qed

lemma startsWith_tagText_unique:
  "startsWith s (tagText a) \<Longrightarrow> startsWith s (tagText b) \<Longrightarrow> a = b"
  by (cases a; cases b) (auto simp: startsWith_iff js_def)

lemma matchTagHere_tag:
  assumes "list_all isSpace ws"
  shows "matchTagHere (tagText tag @ ws) = Some tag"
proof -
  have s: "startsWith (tagText tag @ ws) (tagText tag)" by (simp add: startsWith_iff)
  have n: "\<And>b. b \<noteq> tag \<Longrightarrow> \<not> startsWith (tagText tag @ ws) (tagText b)"
    using s startsWith_tagText_unique by blast
  have l: "length (tagText T_like) = 10" "length (tagText T_dislike) = 13"
    "length (tagText T_neutral) = 13" by (simp_all add: js_def)
  show ?thesis
  proof (cases tag)
    case T_like
    then show ?thesis using s assms l unfolding matchTagHere_def by (simp del: tagText.simps add: tagText.simps[symmetric])
  next
    case T_dislike
    then show ?thesis using s n[of T_like] assms l unfolding matchTagHere_def
      by (simp del: tagText.simps add: tagText.simps[symmetric])
  next
    case T_neutral
    then show ?thesis using s n[of T_like] n[of T_dislike] assms l unfolding matchTagHere_def
      by (simp del: tagText.simps add: tagText.simps[symmetric])
  qed
qed

lemma tagMatch_Some:
  "tagMatch s = Some (before, tag) \<Longrightarrow> \<exists>ws. s = before @ tagText tag @ ws \<and> list_all isSpace ws"
proof (induction s arbitrary: before)
  case Nil
  then show ?case by (auto dest: matchTagHere_Some)
next
  case (Cons c cs)
  show ?case
  proof (cases "matchTagHere (c # cs)")
    case None
    with Cons.prems obtain b where b: "tagMatch cs = Some (b, tag)" "before = c # b"
      by auto
    from Cons.IH[OF b(1)] b(2) show ?thesis by auto
  next
    case (Some t)
    with Cons.prems have "before = []" "t = tag" by auto
    with matchTagHere_Some[OF Some] show ?thesis by simp
  qed
qed

lemma last_tagText: "last (tagText tag) = 93" "tagText tag \<noteq> []" "\<not> isSpace 93"
  by (cases tag; simp add: js_def isSpace_def)+

lemma tagText_suffix_eq:
  assumes "tagText a = u @ tagText b"
  shows "u = []"
proof -
  have "rev (tagText a) = rev (tagText b) @ rev u" using assms by simp
  then have "startsWith (rev (tagText a)) (rev (tagText b))" by (simp add: startsWith_iff)
  then have "a = b" by (cases a; cases b) (simp_all add: js_def)
  with assms show ?thesis by simp
qed

lemma matchTagHere_before_tag:
  assumes "u \<noteq> []"
  shows "matchTagHere (u @ tagText tag) = None"
proof (rule ccontr)
  assume "matchTagHere (u @ tagText tag) \<noteq> None"
  then obtain t where "matchTagHere (u @ tagText tag) = Some t" by auto
  then obtain ws where e: "u @ tagText tag = tagText t @ ws" and sp: "list_all isSpace ws"
    using matchTagHere_Some by blast
  show False
  proof (cases ws rule: rev_cases)
    case Nil
    with e have "tagText t = u @ tagText tag" by simp
    then show False using tagText_suffix_eq assms by blast
  next
    case (snoc ws' w)
    with e have "last (u @ tagText tag) = w" by simp
    then have "w = 93" using last_tagText(1,2)[of tag] by simp
    with sp snoc show False using last_tagText(3) by simp
  qed
qed

lemma tagMatch_appended: "tagMatch (t @ tagText tag) = Some (t, tag)"
proof (induction t)
  case Nil
  have "matchTagHere (tagText tag @ []) = Some tag" by (rule matchTagHere_tag) simp
  then show ?case by (cases "tagText tag") (use last_tagText(2)[of tag] in auto)
next
  case (Cons c cs)
  have "matchTagHere ((c # cs) @ tagText tag) = None" by (rule matchTagHere_before_tag) simp
  with Cons show ?case by simp
qed

lemma tagMatch_last:
  assumes "tagMatch s = Some (before, tag)"
  shows "s \<noteq> [] \<and> (last s = 93 \<or> isSpace (last s))"
proof -
  obtain ws where e: "s = before @ tagText tag @ ws" and sp: "list_all isSpace ws"
    using tagMatch_Some[OF assms] by blast
  show ?thesis
  proof (cases ws rule: rev_cases)
    case Nil
    then show ?thesis using e last_tagText(1,2)[of tag] by simp
  next
    case (snoc ws' w)
    then show ?thesis using e sp by simp
  qed
qed

lemma stripTrailingTag_appended: "stripTrailingTag (t @ tagText tag) = t"
  by (simp add: stripTrailingTag_def tagMatch_appended)

lemma tagMatch_includes:
  assumes "tagMatch s = Some (before, tag)"
  shows "includesStr s (tagText tag)"
  using tagMatch_Some[OF assms] by (auto simp: includesStr_iff)

lemma tagFree_tagMatch: "tagFree t \<Longrightarrow> tagMatch t = None"
proof (rule ccontr)
  assume tf: "tagFree t" and "tagMatch t \<noteq> None"
  then obtain b tag where "tagMatch t = Some (b, tag)" by auto
  then have "includesStr t (tagText tag)" by (rule tagMatch_includes)
  then show False using tf by (cases tag) (auto simp: tagFree_def)
qed

lemma startsWith_includes: "startsWith s p \<Longrightarrow> includesStr s p"
  by (cases s) auto

lemma legacyAt_Some:
  assumes "legacyAt s = Some n"
  shows "hasLegacy (s @ r)"
proof -
  from assms consider "startsWith s (js '' #liked'')" | "startsWith s (js '' #disliked'')"
    | "startsWith s (js '' #neutral'')"
    unfolding legacyAt_def by (auto split: if_splits)
  then show ?thesis
    unfolding hasLegacy_def
    by cases (blast intro: startsWith_includes startsWith_append)+
qed

lemma hasLegacy_Cons: "hasLegacy cs \<Longrightarrow> hasLegacy (c # cs)"
  by (auto simp: hasLegacy_def)

lemma removeLegacy_id: "\<not> hasLegacy t \<Longrightarrow> removeLegacy t = t"
proof (induction t)
  case Nil
  then show ?case by simp
next
  case (Cons c cs)
  have "legacyAt (c # cs) = None" using legacyAt_Some[of "c # cs" _ "[]"] Cons.prems
    by (cases "legacyAt (c # cs)") auto
  moreover have "\<not> hasLegacy cs" using Cons.prems hasLegacy_Cons by blast
  ultimately show ?case using Cons.IH by simp
qed

lemma tagFree_hasLegacy: "tagFree t \<Longrightarrow> \<not> hasLegacy t"
  by (auto simp: tagFree_def hasLegacy_def)

lemma includesStr_trimEnd: "includesStr (trimEnd t) p \<Longrightarrow> includesStr t p"
  using trimEnd_decomp[of t] includesStr_appendI1 by metis

lemma tagFree_trimEnd: "tagFree t \<Longrightarrow> tagFree (trimEnd t)"
  unfolding tagFree_def using includesStr_trimEnd by blast

lemma cleanContent_tagFree: "tagFree t \<Longrightarrow> cleanContent t = trimEnd t"
  by (simp add: cleanContent_def stripTrailingTag_def tagFree_tagMatch removeLegacy_id tagFree_hasLegacy)

lemma cleanContent_tagged: "cleanContent (c @ newSuffix r) = trimEnd (removeLegacy c)"
  by (simp add: cleanContent_def newSuffix_tagText stripTrailingTag_appended)

lemma decodeContent_tagged: "decodeContent (c @ newSuffix r) = (trimEnd c, r)"
proof -
  have m: "tagMatch (c @ newSuffix r) = Some (c, tagOf r)"
    unfolding newSuffix_tagText by (rule tagMatch_appended)
  have "decodeContent (c @ newSuffix r) =
      (trimEnd c, if tagOf r = T_like then Some Like
                  else if tagOf r = T_dislike then Some Dislike else None)"
    by (simp add: decodeContent_def stripTrailingTag_def m)
  then show ?thesis
    by (cases r rule: tagOf.cases) simp_all
qed

lemma newContent_retag:
  assumes "tagFree t"
  shows "newContent (trimEnd t @ newSuffix r) r' = trimEnd t @ newSuffix r'"
  using assms
  by (simp add: newContent_def cleanContent_tagged removeLegacy_id tagFree_hasLegacy
      tagFree_trimEnd trimEnd_idem)

lemma foldl_newContent:
  assumes "tagFree t"
  shows "foldl newContent (trimEnd t @ newSuffix r) rs = trimEnd t @ newSuffix (last (r # rs))"
  using assms by (induction rs arbitrary: r) (simp_all add: newContent_retag)

subsection \<open>The legacy markers\<close>

lemma startsWith_before:
  "a \<notin> set p \<Longrightarrow> startsWith (x @ a # w) p \<Longrightarrow> startsWith x p"
proof (induction x arbitrary: p)
  case Nil
  then show ?case by (cases p) auto
next
  case (Cons c xs)
  then show ?case by (cases p) auto
qed

lemma includesStr_before:
  assumes "a \<notin> set p" "\<not> includesStr (a # w) p" "includesStr (x @ a # w) p"
  shows "includesStr x p"
  using assms(3)
proof (induction x)
  case Nil
  then show ?case using assms(2) by simp
next
  case (Cons c xs)
  from Cons.prems consider "startsWith ((c # xs) @ a # w) p" | "includesStr (xs @ a # w) p"
    by auto
  then show ?case
  proof cases
    case 1
    then have "startsWith (c # xs) p" using startsWith_before[OF assms(1)] by blast
    then show ?thesis by simp
  next
    case 2
    then show ?thesis using Cons.IH by simp
  qed
qed

lemma marker_shape:
  assumes "isMarker m"
  obtains m' where "m = 32 # m'" "32 \<notin> set m'" "91 \<notin> set m"
  using assms unfolding isMarker_def by (auto simp: js_def)

lemma legacyAt_marker: "isMarker m \<Longrightarrow> legacyAt (m @ v) = Some (length m)"
  unfolding isMarker_def legacyAt_def by (auto simp: js_def)

lemma legacyAt_startsWith:
  assumes "legacyAt s = Some n"
  obtains mk where "isMarker mk" "startsWith s mk"
  using assms unfolding legacyAt_def isMarker_def by (auto split: if_splits)

lemma hasLegacy_iff: "hasLegacy s \<longleftrightarrow> (\<exists>mk. isMarker mk \<and> includesStr s mk)"
  unfolding hasLegacy_def isMarker_def by auto

lemma legacyAt_inside:
  assumes nl: "\<not> hasLegacy (c # u)" and m: "isMarker m"
  shows "legacyAt (c # u @ m @ v) = None"
proof (rule ccontr)
  assume "legacyAt (c # u @ m @ v) \<noteq> None"
  then obtain n where "legacyAt (c # u @ m @ v) = Some n" by auto
  then obtain mk where mk: "isMarker mk" "startsWith (c # u @ m @ v) mk"
    by (rule legacyAt_startsWith)
  obtain mk' where mk': "mk = 32 # mk'" "32 \<notin> set mk'" using mk(1) by (rule marker_shape)
  obtain m' where m': "m = 32 # m'" using m by (rule marker_shape)
  from mk(2) have c: "c = 32" and "startsWith (u @ 32 # (m' @ v)) mk'"
    unfolding mk' m' by auto
  then have "startsWith u mk'" using startsWith_before[OF mk'(2)] by blast
  then have "startsWith (c # u) mk" unfolding mk' using c by simp
  then have "includesStr (c # u) mk" by simp
  then show False using nl mk(1) hasLegacy_iff by blast
qed

lemma removeLegacy_occurrence:
  assumes "\<not> hasLegacy u" "isMarker m"
  shows "removeLegacy (u @ m @ v) = u @ removeLegacy v"
  using assms(1)
proof (induction u)
  case Nil
  obtain m' where m': "m = 32 # m'" using assms(2) by (rule marker_shape)
  have "legacyAt (m @ v) = Some (length m)" using assms(2) by (rule legacyAt_marker)
  then show ?case unfolding m' by simp
next
  case (Cons c u)
  have "legacyAt (c # u @ m @ v) = None" using Cons.prems assms(2) by (rule legacyAt_inside)
  moreover have "\<not> hasLegacy u" using Cons.prems hasLegacy_Cons by blast
  ultimately show ?case using Cons.IH by simp
qed

lemma hasLegacy_tagged:
  assumes "hasLegacy (c @ tagText tag)"
  shows "hasLegacy c"
proof -
  obtain mk where mk: "isMarker mk" "includesStr (c @ tagText tag) mk"
    using assms hasLegacy_iff by blast
  obtain w where w: "tagText tag = 91 # w" by (cases tag) (auto simp: js_def)
  have a: "91 \<notin> set mk" using mk(1) by (rule marker_shape)
  have b: "\<not> includesStr (91 # w) mk"
    using mk(1) unfolding w[symmetric] isMarker_def by (cases tag) (auto simp: js_def)
  have "includesStr c mk" using includesStr_before[OF a b] mk(2) unfolding w by blast
  then show ?thesis using mk(1) hasLegacy_iff by blast
qed

lemma hasLegacy_trimEnd: "hasLegacy (trimEnd s) \<Longrightarrow> hasLegacy s"
  unfolding hasLegacy_def using includesStr_trimEnd by blast

lemma tagMatch_endsLiked: "tagMatch (u @ js '' #liked'') = None"
proof (rule ccontr)
  assume "tagMatch (u @ js '' #liked'') \<noteq> None"
  then obtain b tag where "tagMatch (u @ js '' #liked'') = Some (b, tag)" by auto
  from tagMatch_last[OF this] show False by (simp add: js_def isSpace_def)
qed

lemma includes_endsLiked: "includesStr (u @ js '' #liked'') (js '' #liked'')"
  by (rule includesStr_appendI2) (simp add: js_def)

subsection \<open>Round trip\<close>

text \<open>
  Claim C3, as the code has it. For every tag-free string \<open>t\<close> and every rating \<open>r\<close>
  (like, dislike or none), decoding the encoded form gives back the rating (none for the
  neutral tag) and the text \<open>t\<close> without its trailing white space, hence \<open>t\<close> itself when
  \<open>t\<close> does not end in white space. Encoding again, through any sequence \<open>rs\<close> of further
  rating changes, leaves that text followed by the one tag of the last rating, which
  decodes to the text and the last rating: tags do not accumulate.
\<close>

theorem tag_roundtrip:
  assumes "tagFree t"
  shows "decodeContent (newContent t r) = (trimEnd t, r)
       \<and> (t = [] \<or> \<not> isSpace (last t) \<longrightarrow> decodeContent (newContent t r) = (t, r))
       \<and> foldl newContent (newContent t r) rs = trimEnd t @ newSuffix (last (r # rs))
       \<and> decodeContent (foldl newContent (newContent t r) rs) = (trimEnd t, last (r # rs))"
proof -
  have n: "newContent t r = trimEnd t @ newSuffix r"
    using assms by (simp add: newContent_def cleanContent_tagFree)
  have d: "decodeContent (newContent t r) = (trimEnd t, r)"
    by (simp add: n decodeContent_tagged trimEnd_idem)
  have f: "foldl newContent (newContent t r) rs = trimEnd t @ newSuffix (last (r # rs))"
    unfolding n using assms by (rule foldl_newContent)
  have "decodeContent (foldl newContent (newContent t r) rs) = (trimEnd t, last (r # rs))"
    unfolding f by (simp add: decodeContent_tagged trimEnd_idem)
  with d f show ?thesis using trimEnd_id[of t] by auto
qed

theorem tag_roundtrip_witness:
  "tagFree (js ''Hello, world'')
   \<and> decodeContent (newContent (js ''Hello, world'') (Some Like)) = (js ''Hello, world'', Some Like)
   \<and> foldl newContent (newContent (js ''Hello, world'') (Some Like)) [None, Some Dislike]
       = js ''Hello, world[TAG:dislike]''
   \<and> decodeContent (foldl newContent (newContent (js ''Hello, world'') (Some Like)) [None, Some Dislike])
       = (js ''Hello, world'', Some Dislike)"
proof -
  have tf: "tagFree (js ''Hello, world'')"
    by (simp add: tagFree_def js_def)
  have ns: "js ''Hello, world'' = [] \<or> \<not> isSpace (last (js ''Hello, world''))"
    by (simp add: js_def isSpace_def)
  have te: "trimEnd (js ''Hello, world'') = js ''Hello, world''"
    using ns by (rule trimEnd_id)
  note T = tag_roundtrip[OF tf, of "Some Like" "[None, Some Dislike]"]
  have 1: "decodeContent (newContent (js ''Hello, world'') (Some Like)) = (js ''Hello, world'', Some Like)"
    using T ns by blast
  have "foldl newContent (newContent (js ''Hello, world'') (Some Like)) [None, Some Dislike]
       = trimEnd (js ''Hello, world'') @ newSuffix (last [Some Like, None, Some Dislike])"
    using T by blast
  then have 2: "foldl newContent (newContent (js ''Hello, world'') (Some Like)) [None, Some Dislike]
       = js ''Hello, world[TAG:dislike]''"
    unfolding te by (simp add: newSuffix_def js_def)
  have "decodeContent (foldl newContent (newContent (js ''Hello, world'') (Some Like)) [None, Some Dislike])
       = (trimEnd (js ''Hello, world''), last [Some Like, None, Some Dislike])"
    using T by blast
  then have 3: "decodeContent (foldl newContent (newContent (js ''Hello, world'') (Some Like)) [None, Some Dislike])
       = (js ''Hello, world'', Some Dislike)"
    unfolding te by simp
  show ?thesis using tf 1 2 3 by blast
qed

text \<open>
  The claim as stated fails on a tag-free text that ends in white space: encoding trims
  it, so the decoded display text is not the text that was encoded.
\<close>

theorem tag_roundtrip_counterexample:
  "tagFree (js ''hi '')
   \<and> decodeContent (newContent (js ''hi '') (Some Like)) = (js ''hi'', Some Like)
   \<and> fst (decodeContent (newContent (js ''hi '') (Some Like))) \<noteq> js ''hi ''"
  by (simp add: js_def newContent_def cleanContent_def stripTrailingTag_def matchTagHere_def legacyAt_def
     trimEnd_def isSpace_def newSuffix_def decodeContent_def tagFree_def)

subsection \<open>Legacy markers\<close>

text \<open>
  Claim C4, as the code has it. Without a trailing bracket tag the display text is the
  stored text with the legacy markers removed in one pass from left to right and
  trailing white space trimmed; that pass keeps a text without markers and drops a marker
  that follows one. A stored string ending in \<open>#liked\<close> (after a space) has no trailing
  bracket tag and decodes to the rating like, and to the text before the marker when that
  text holds no marker. One encode cycle writes the cleaned content followed by one
  bracket tag, which is the trailing tag found again; the result holds no legacy marker
  whenever the removal pass has left none.
\<close>

theorem legacy_compat:
  "(tagMatch s = None \<longrightarrow> fst (decodeContent s) = trimEnd (removeLegacy s))
   \<and> tagMatch (u @ js '' #liked'') = None
   \<and> decodeContent (u @ js '' #liked'') = (trimEnd (removeLegacy (u @ js '' #liked'')), Some Like)
   \<and> (\<not> hasLegacy u \<longrightarrow> removeLegacy u = u)
   \<and> (\<not> hasLegacy u \<and> isMarker m \<longrightarrow> removeLegacy (u @ m @ v) = u @ removeLegacy v)
   \<and> (\<not> hasLegacy u \<longrightarrow> decodeContent (u @ js '' #liked'') = (trimEnd u, Some Like))
   \<and> newContent s r = trimEnd (removeLegacy (stripTrailingTag s)) @ newSuffix r
   \<and> tagMatch (newContent s r) = Some (cleanContent s, tagOf r)
   \<and> (\<not> hasLegacy (removeLegacy (stripTrailingTag s)) \<longrightarrow> \<not> hasLegacy (newContent s r))"
proof -
  have 1: "decodeContent (u @ js '' #liked'') = (trimEnd (removeLegacy (u @ js '' #liked'')), Some Like)"
    by (simp add: decodeContent_def tagMatch_endsLiked includes_endsLiked)
  have 3: "removeLegacy (u @ m @ v) = u @ removeLegacy v" if "\<not> hasLegacy u" "isMarker m"
    using that by (rule removeLegacy_occurrence)
  have 4: "decodeContent (u @ js '' #liked'') = (trimEnd u, Some Like)" if "\<not> hasLegacy u"
  proof -
    have "removeLegacy (u @ js '' #liked'' @ []) = u @ removeLegacy []"
      using that by (rule removeLegacy_occurrence) (simp add: isMarker_def)
    then show ?thesis using 1 by simp
  qed
  have 6: "tagMatch (newContent s r) = Some (cleanContent s, tagOf r)"
    unfolding newContent_def newSuffix_tagText by (rule tagMatch_appended)
  have 7: "\<not> hasLegacy (newContent s r)" if "\<not> hasLegacy (removeLegacy (stripTrailingTag s))"
    using that hasLegacy_tagged hasLegacy_trimEnd
    unfolding newContent_def newSuffix_tagText cleanContent_def by blast
  have 0: "fst (decodeContent s) = trimEnd (removeLegacy s)" if "tagMatch s = None"
    using that by (simp add: decodeContent_def)
  show ?thesis
    using 0 1 3 4 6 7 removeLegacy_id[of u] tagMatch_endsLiked[of u]
    by (simp add: newContent_def cleanContent_def)
qed

theorem legacy_compat_witness:
  "tagMatch (js ''ok #liked'') = None
   \<and> fst (decodeContent (js ''ok #liked'')) = trimEnd (removeLegacy (js ''ok #liked''))
   \<and> \<not> hasLegacy (js ''ok'')
   \<and> removeLegacy (js ''ok'') = js ''ok''
   \<and> isMarker (js '' #neutral'')
   \<and> removeLegacy (js ''ok'' @ js '' #neutral'' @ js ''!'') = js ''ok'' @ removeLegacy (js ''!'')
   \<and> decodeContent (js ''ok'' @ js '' #liked'') = (trimEnd (js ''ok''), Some Like)
   \<and> \<not> hasLegacy (removeLegacy (stripTrailingTag (js ''ok #liked[TAG:like]'')))
   \<and> \<not> hasLegacy (newContent (js ''ok #liked[TAG:like]'') (Some Dislike))"
proof -
  have a: "tagMatch (js ''ok #liked'') = None"
    by (simp add: js_def matchTagHere_def)
  have b: "\<not> hasLegacy (js ''ok'')"
    by (simp add: hasLegacy_def js_def)
  have c: "isMarker (js '' #neutral'')"
    by (simp add: isMarker_def)
  have d: "\<not> hasLegacy (removeLegacy (stripTrailingTag (js ''ok #liked[TAG:like]'')))"
    by (simp add: hasLegacy_def js_def stripTrailingTag_def matchTagHere_def legacyAt_def)
  note L1 = legacy_compat[where s = "js ''ok #liked''" and u = "js ''ok''"
      and m = "js '' #neutral''" and v = "js ''!''"]
  note L2 = legacy_compat[where s = "js ''ok #liked[TAG:like]''" and r = "Some Dislike"]
  have 1: "fst (decodeContent (js ''ok #liked'')) = trimEnd (removeLegacy (js ''ok #liked''))"
    using L1 a by blast
  have 2: "removeLegacy (js ''ok'') = js ''ok''"
    using L1 b by blast
  have 3: "removeLegacy (js ''ok'' @ js '' #neutral'' @ js ''!'') = js ''ok'' @ removeLegacy (js ''!'')"
    using L1 b c by blast
  have 4: "decodeContent (js ''ok'' @ js '' #liked'') = (trimEnd (js ''ok''), Some Like)"
    using L1 b by blast
  have 5: "\<not> hasLegacy (newContent (js ''ok #liked[TAG:like]'') (Some Dislike))"
    using L2 d by blast
  show ?thesis using a b c d 1 2 3 4 5 by blast
qed

text \<open>
  The claim as stated fails on a stored string in which one marker is nested in
  another: the single pass removes the inner marker and splices the outer one together,
  so the display text still holds a marker and, after one encode cycle, the stored
  content holds a legacy marker and a bracket tag.
\<close>

theorem legacy_counterexample:
  "tagMatch (js '' #li #likedked'') = None
   \<and> decodeContent (js '' #li #likedked'') = (js '' #liked'', Some Like)
   \<and> newContent (js '' #li #likedked'') None = js '' #liked[TAG:neutral]''
   \<and> includesStr (newContent (js '' #li #likedked'') None) (js '' #liked'')
   \<and> includesStr (newContent (js '' #li #likedked'') None) (js ''[TAG:neutral]'')"
  by (simp add: js_def newContent_def cleanContent_def stripTrailingTag_def matchTagHere_def legacyAt_def
     trimEnd_def isSpace_def newSuffix_def decodeContent_def)

section \<open>Properties of the remote store functions\<close>

subsection \<open>Saving the result\<close>

lemma saveResult_value:
  "fst (saveResultToSpreadsheet cfg remote finalResult user) =
     Inr (configured cfg \<and>
          (case remote (resultRequest finalResult user) of
             Inl e \<Rightarrow> False
           | Inr response \<Rightarrow> ok response \<or> status response = 409))"
  unfolding saveResultToSpreadsheet_def configured_def resultRequest_def Let_def catch_def andThen_def json_def
  by (auto split: sum.splits Body.splits)

lemma saveResult_requests:
  "snd (saveResultToSpreadsheet cfg remote finalResult user) =
     (if configured cfg then [resultRequest finalResult user] else [])"
  unfolding saveResultToSpreadsheet_def configured_def resultRequest_def Let_def
  by auto

lemma saveResult_pair:
  "saveResultToSpreadsheet cfg remote finalResult user =
     (Inr (saveSucceeds cfg remote finalResult user),
      if configured cfg then [resultRequest finalResult user] else [])"
  by (simp add: prod_eq_iff saveResult_value saveResult_requests saveSucceeds_def)

text \<open>
  Claim C10, as the code has it. \<open>saveResultToSpreadsheet\<close> always settles to a value and
  never to an exception. The value is true exactly when the store is configured and
  answers the upsert with an OK status or with the status 409; a rejected \<open>fetch\<close> and
  every other status give false. The body of a response that is not OK is read and a
  failure to parse it is swallowed: it has no part in the value. The upsert is the only
  request, and none is sent when the store is not configured.
\<close>

theorem saveResultToSpreadsheet_outcome:
  "saveResultToSpreadsheet cfg remote finalResult user =
     (Inr (configured cfg \<and>
           (case remote (resultRequest finalResult user) of
              Inl e \<Rightarrow> False
            | Inr response \<Rightarrow> ok response \<or> status response = 409)),
      if configured cfg then [resultRequest finalResult user] else [])"
  using saveResult_pair[of cfg remote finalResult user] by (simp add: saveSucceeds_def)

text \<open>
  The claim as stated has every parsing error give false. A response with the status
  409 whose body is not JSON gives true: the parsing error is caught on the spot.
\<close>

theorem saveResultToSpreadsheet_counterexample:
  "json \<lparr>status = 409, body = NotJson\<rparr> = Inl SyntaxError
   \<and> fst (saveResultToSpreadsheet cfg0 (\<lambda>request. Inr \<lparr>status = 409, body = NotJson\<rparr>)
        (calculateResults Map.empty)
        \<lparr>firstName = js ''Ann'', lastName = js ''Lee'', user_phone = js ''89151234567'',
         age = js ''30'', password = None, interests = None\<rparr>) = Inr True"
  by (simp add: saveResult_value configured_def cfg0_def js_def json_def ok_def)

subsection \<open>Appending a message\<close>

lemma phone_example: "normalizePhoneNumber (js ''89151234567'') = js ''79151234567''"
  by (simp add: normalize_alt stripNonDigits_def js_def isDigit_def sliceLast_def)

lemma phone_example_known: "js ''79151234567'' \<noteq> sentinel"
  by (simp add: sentinel_def js_def)

lemma phone_anonymous: "normalizePhoneNumber (js ''+'') = sentinel"
  by (simp add: normalize_alt stripNonDigits_def js_def isDigit_def)

text \<open>
  Claim C5, as the code has it. When the phone canonicalizes to the sentinel nothing is
  sent. Otherwise one row is sent: for the role \<open>model\<close> the given text with the neutral
  tag appended to it as it is, for the role \<open>user\<close> the given text. The function takes no
  rating and strips nothing. What is stored for the role \<open>model\<close> decodes to the text
  without its trailing white space and to no rating, and it is the codec's encoding of
  the text with no rating when the text is tag-free and does not end in white space.
\<close>

theorem saveChatMessage_spec:
  "(normalizePhoneNumber phone = sentinel \<longrightarrow> saveChatMessage phone role content = [])
   \<and> (normalizePhoneNumber phone \<noteq> sentinel \<longrightarrow>
        saveChatMessage phone Model content =
          [POST_chat (normalizePhoneNumber phone) Model (content @ js ''[TAG:neutral]'')]
        \<and> saveChatMessage phone User content = [POST_chat (normalizePhoneNumber phone) User content])
   \<and> decodeContent (content @ js ''[TAG:neutral]'') = (trimEnd content, None)
   \<and> (tagFree content \<and> (content = [] \<or> \<not> isSpace (last content)) \<longrightarrow>
        content @ js ''[TAG:neutral]'' = newContent content None)"
proof -
  have d: "decodeContent (content @ js ''[TAG:neutral]'') = (trimEnd content, None)"
    using decodeContent_tagged[of content None] by (simp add: newSuffix_def)
  have n: "content @ js ''[TAG:neutral]'' = newContent content None"
    if "tagFree content" "content = [] \<or> \<not> isSpace (last content)"
    using that by (simp add: newContent_def cleanContent_tagFree trimEnd_id newSuffix_def)
  show ?thesis
    using d n by (auto simp: saveChatMessage_def Let_def)
qed

text \<open>The theorem at an anonymous phone and at a known phone, for a tag-free text.\<close>

theorem saveChatMessage_spec_witness:
  "normalizePhoneNumber (js ''+'') = sentinel
   \<and> saveChatMessage (js ''+'') Model (js ''Hello'') = []
   \<and> normalizePhoneNumber (js ''89151234567'') \<noteq> sentinel
   \<and> saveChatMessage (js ''89151234567'') Model (js ''Hello'') =
        [POST_chat (js ''79151234567'') Model (js ''Hello[TAG:neutral]'')]
   \<and> saveChatMessage (js ''89151234567'') User (js ''Hello'') =
        [POST_chat (js ''79151234567'') User (js ''Hello'')]
   \<and> tagFree (js ''Hello'')
   \<and> js ''Hello'' @ js ''[TAG:neutral]'' = newContent (js ''Hello'') None"
proof -
  have k: "normalizePhoneNumber (js ''89151234567'') \<noteq> sentinel"
    unfolding phone_example by (rule phone_example_known)
  have tf: "tagFree (js ''Hello'') \<and> (js ''Hello'' = [] \<or> \<not> isSpace (last (js ''Hello'')))"
    by (simp add: tagFree_def js_def isSpace_def)
  note A = saveChatMessage_spec[of "js ''+''" Model "js ''Hello''"]
  note B = saveChatMessage_spec[of "js ''89151234567''" Model "js ''Hello''"]
  have 1: "saveChatMessage (js ''+'') Model (js ''Hello'') = []"
    using A phone_anonymous by blast
  have 2: "saveChatMessage (js ''89151234567'') Model (js ''Hello'') =
        [POST_chat (normalizePhoneNumber (js ''89151234567'')) Model (js ''Hello'' @ js ''[TAG:neutral]'')]"
    using B k by blast
  have 3: "saveChatMessage (js ''89151234567'') User (js ''Hello'') =
        [POST_chat (normalizePhoneNumber (js ''89151234567'')) User (js ''Hello'')]"
    using B k by blast
  have 4: "js ''Hello'' @ js ''[TAG:neutral]'' = newContent (js ''Hello'') None"
    using B tf by blast
  have e2: "saveChatMessage (js ''89151234567'') Model (js ''Hello'') =
        [POST_chat (js ''79151234567'') Model (js ''Hello[TAG:neutral]'')]"
    unfolding 2 phone_example by (simp add: js_def)
  have e3: "saveChatMessage (js ''89151234567'') User (js ''Hello'') =
        [POST_chat (js ''79151234567'') User (js ''Hello'')]"
    unfolding 3 phone_example by simp
  show ?thesis using phone_anonymous 1 k e2 e3 tf 4 by blast
qed

text \<open>
  The claim as stated has the stored content be the text passed through the codec.
  For a reply that holds a legacy marker the codec would drop the marker and the function
  keeps it; for a text that ends in a tag and a space the codec would leave one tag and
  the function stores two, with white space before the second.
\<close>

theorem saveChatMessage_counterexample:
  "normalizePhoneNumber (js ''89151234567'') \<noteq> sentinel
   \<and> saveChatMessage (js ''89151234567'') Model (js ''see #liked posts'') =
       [POST_chat (js ''79151234567'') Model (js ''see #liked posts[TAG:neutral]'')]
   \<and> newContent (js ''see #liked posts'') None = js ''see posts[TAG:neutral]''
   \<and> saveChatMessage (js ''89151234567'') Model (js ''ok[TAG:like] '') =
       [POST_chat (js ''79151234567'') Model (js ''ok[TAG:like] [TAG:neutral]'')]
   \<and> newContent (js ''ok[TAG:like] '') None = js ''ok[TAG:neutral]''"
  by (simp add: saveChatMessage_def normalize_alt stripNonDigits_def js_def isDigit_def sliceLast_def
      sentinel_def newContent_def cleanContent_def stripTrailingTag_def matchTagHere_def legacyAt_def
      trimEnd_def isSpace_def newSuffix_def)

subsection \<open>Rating a message that has no id\<close>

lemma rateMessage_anonymous:
  "normalizePhoneNumber phone = sentinel \<Longrightarrow>
     rateMessage remote phone message rating = \<lparr>requests = [], logged = False\<rparr>"
  by (simp add: rateMessage_def)

lemma rateMessage_lookup:
  fixes message :: ChatMessageData and resp :: Response
  assumes "msg_id message = None" "normalizePhoneNumber phone \<noteq> sentinel"
    and "remote (GET_recent (normalizePhoneNumber phone) (msg_role message)) = Inr resp"
    and "ok resp" "body resp = JsonRows records"
  shows "rateMessage remote phone message rating =
     (case find (\<lambda>r. cleanContent (row_content r) = msg_text message) records of
        None \<Rightarrow> \<lparr>requests = [GET_recent (normalizePhoneNumber phone) (msg_role message)], logged = False\<rparr>
      | Some found \<Rightarrow>
          if row_id found = 0
          then \<lparr>requests = [GET_recent (normalizePhoneNumber phone) (msg_role message)], logged = False\<rparr>
          else writeBack remote [GET_recent (normalizePhoneNumber phone) (msg_role message)]
                 (row_id found) (row_content found) rating)"
  using assms by (simp add: rateMessage_def Let_def)

lemma rateMessage_first_request:
  fixes message :: ChatMessageData
  assumes "msg_id message = None" "normalizePhoneNumber phone \<noteq> sentinel"
  shows "\<exists>rest. requests (rateMessage remote phone message rating) =
           GET_recent (normalizePhoneNumber phone) (msg_role message) # rest"
  using assms
  by (auto simp: rateMessage_def Let_def writeBack_def split: sum.splits Body.splits option.splits)

lemma rateMessage_no_candidate:
  fixes message :: ChatMessageData
  assumes "msg_id message = None" "normalizePhoneNumber phone \<noteq> sentinel"
    and "noCandidate remote (GET_recent (normalizePhoneNumber phone) (msg_role message)) (msg_text message)"
  shows "requests (rateMessage remote phone message rating) =
           [GET_recent (normalizePhoneNumber phone) (msg_role message)]"
  using assms
  by (auto simp: rateMessage_def Let_def noCandidate_def split: sum.splits Body.splits option.splits)

lemma cleanContent_examples:
  "cleanContent (js ''hi[TAG:neutral]'') = js ''hi''" "cleanContent (js ''hi #liked'') = js ''hi''"
  by (simp_all add: cleanContent_def stripTrailingTag_def matchTagHere_def legacyAt_def
      trimEnd_def isSpace_def js_def)

text \<open>
  Claim C6, as the code has it, for a message without an id. When the phone canonicalizes
  to the sentinel nothing is sent and nothing is logged. Otherwise the first request is
  the query for the five most recent rows of the canonical phone and the role of the
  message. When the store answers it with rows, the first row whose cleaned content
  (trailing tag, legacy markers and trailing white space stripped) equals the text of the
  message gives the id, and one update of that row with the re-encoded content follows
  (none when that id is 0); when no row matches, the query is the only request and
  nothing is logged. In every case in which no candidate matches there is no write.
\<close>

theorem rateMessage_unknown_id:
  fixes remote :: Remote and message :: ChatMessageData and phone :: jsstring
  defines "query \<equiv> GET_recent (normalizePhoneNumber phone) (msg_role message)"
  assumes unknown: "msg_id message = None"
  shows "(normalizePhoneNumber phone = sentinel \<longrightarrow>
            rateMessage remote phone message rating = \<lparr>requests = [], logged = False\<rparr>)
       \<and> (normalizePhoneNumber phone \<noteq> sentinel \<longrightarrow>
            (\<exists>rest. requests (rateMessage remote phone message rating) = query # rest)
          \<and> (\<forall>(resp :: Response) records. remote query = Inr resp \<and> ok resp \<and> body resp = JsonRows records \<longrightarrow>
                rateMessage remote phone message rating =
                  (case find (\<lambda>r. cleanContent (row_content r) = msg_text message) records of
                     None \<Rightarrow> \<lparr>requests = [query], logged = False\<rparr>
                   | Some found \<Rightarrow>
                       if row_id found = 0 then \<lparr>requests = [query], logged = False\<rparr>
                       else \<lparr>requests = [query, PATCH_content (row_id found)
                                                   (newContent (row_content found) rating)],
                             logged = (case remote (PATCH_content (row_id found)
                                                   (newContent (row_content found) rating)) of
                                         Inl e \<Rightarrow> True | Inr response \<Rightarrow> False)\<rparr>))
          \<and> (noCandidate remote query (msg_text message) \<longrightarrow>
                requests (rateMessage remote phone message rating) = [query]))"
proof -
  have a: "rateMessage remote phone message rating = \<lparr>requests = [], logged = False\<rparr>"
    if "normalizePhoneNumber phone = sentinel"
    using that by (rule rateMessage_anonymous)
  have b: "\<exists>rest. requests (rateMessage remote phone message rating) = query # rest"
    if "normalizePhoneNumber phone \<noteq> sentinel"
    unfolding query_def using unknown that by (rule rateMessage_first_request)
  have c: "rateMessage remote phone message rating =
                  (case find (\<lambda>r. cleanContent (row_content r) = msg_text message) records of
                     None \<Rightarrow> \<lparr>requests = [query], logged = False\<rparr>
                   | Some found \<Rightarrow>
                       if row_id found = 0 then \<lparr>requests = [query], logged = False\<rparr>
                       else \<lparr>requests = [query, PATCH_content (row_id found)
                                                   (newContent (row_content found) rating)],
                             logged = (case remote (PATCH_content (row_id found)
                                                   (newContent (row_content found) rating)) of
                                         Inl e \<Rightarrow> True | Inr response \<Rightarrow> False)\<rparr>)"
    if "normalizePhoneNumber phone \<noteq> sentinel" "remote query = Inr resp" "ok resp"
      "body resp = JsonRows records" for resp :: Response and records
    using unknown that unfolding query_def
    by (simp add: rateMessage_lookup[where remote = remote] writeBack_def Let_def split: option.splits)
  have d: "requests (rateMessage remote phone message rating) = [query]"
    if "normalizePhoneNumber phone \<noteq> sentinel" "noCandidate remote query (msg_text message)"
    using unknown that unfolding query_def
    by (simp add: rateMessage_no_candidate[where remote = remote])
  show ?thesis using a b c d by blast
qed

text \<open>
  The theorem at an anonymous phone, and at a known phone for a message that matches
  the first of two rows and for one that matches none.
\<close>

theorem rateMessage_unknown_id_witness:
  "msg_id msgHi = None \<and> msg_id msgBye = None
   \<and> normalizePhoneNumber (js ''+'') = sentinel
   \<and> rateMessage remote1 (js ''+'') msgHi (Some Like) = \<lparr>requests = [], logged = False\<rparr>
   \<and> normalizePhoneNumber (js ''89151234567'') \<noteq> sentinel
   \<and> rateMessage remote1 (js ''89151234567'') msgHi (Some Like) =
        \<lparr>requests = [GET_recent (js ''79151234567'') Model, PATCH_content 7 (js ''hi[TAG:like]'')],
         logged = False\<rparr>
   \<and> noCandidate remote1 (GET_recent (js ''79151234567'') Model) (js ''bye'')
   \<and> requests (rateMessage remote1 (js ''89151234567'') msgBye (Some Like)) =
        [GET_recent (js ''79151234567'') Model]"
proof -
  have u: "msg_id msgHi = None" "msg_id msgBye = None"
    by (simp_all add: msgHi_def msgBye_def)
  have k: "normalizePhoneNumber (js ''89151234567'') \<noteq> sentinel"
    unfolding phone_example by (rule phone_example_known)
  have r: "remote1 (GET_recent (normalizePhoneNumber (js ''89151234567'')) (msg_role msgHi)) =
      Inr \<lparr>status = 200, body = JsonRows
        [\<lparr>row_id = 7, row_content = js ''hi[TAG:neutral]''\<rparr>,
         \<lparr>row_id = 5, row_content = js ''hi #liked''\<rparr>]\<rparr>"
    "ok \<lparr>status = 200, body = JsonRows
        [\<lparr>row_id = 7, row_content = js ''hi[TAG:neutral]''\<rparr>,
         \<lparr>row_id = 5, row_content = js ''hi #liked''\<rparr>]\<rparr>"
    by (simp_all add: remote1_def ok_def)
  have nc: "noCandidate remote1 (GET_recent (normalizePhoneNumber (js ''89151234567'')) (msg_role msgBye))
      (msg_text msgBye)"
    by (simp add: noCandidate_def remote1_def msgBye_def cleanContent_examples) (simp add: js_def)
  note A = rateMessage_unknown_id[OF u(1), of "js ''+''" remote1 "Some Like"]
  note B = rateMessage_unknown_id[OF u(1), of "js ''89151234567''" remote1 "Some Like"]
  note C = rateMessage_unknown_id[OF u(2), of "js ''89151234567''" remote1 "Some Like"]
  have 1: "rateMessage remote1 (js ''+'') msgHi (Some Like) = \<lparr>requests = [], logged = False\<rparr>"
    using A phone_anonymous by blast
  have "rateMessage remote1 (js ''89151234567'') msgHi (Some Like) =
     (case find (\<lambda>r. cleanContent (row_content r) = msg_text msgHi)
         [\<lparr>row_id = 7, row_content = js ''hi[TAG:neutral]''\<rparr>,
          \<lparr>row_id = 5, row_content = js ''hi #liked''\<rparr>] of
        None \<Rightarrow> \<lparr>requests = [GET_recent (normalizePhoneNumber (js ''89151234567'')) (msg_role msgHi)],
                  logged = False\<rparr>
      | Some found \<Rightarrow>
          if row_id found = 0
          then \<lparr>requests = [GET_recent (normalizePhoneNumber (js ''89151234567'')) (msg_role msgHi)],
                logged = False\<rparr>
          else \<lparr>requests = [GET_recent (normalizePhoneNumber (js ''89151234567'')) (msg_role msgHi),
                   PATCH_content (row_id found) (newContent (row_content found) (Some Like))],
                logged = (case remote1 (PATCH_content (row_id found)
                                  (newContent (row_content found) (Some Like))) of
                            Inl e \<Rightarrow> True | Inr response \<Rightarrow> False)\<rparr>)"
    using B k r by simp
  then have 2: "rateMessage remote1 (js ''89151234567'') msgHi (Some Like) =
        \<lparr>requests = [GET_recent (js ''79151234567'') Model, PATCH_content 7 (js ''hi[TAG:like]'')],
         logged = False\<rparr>"
    unfolding phone_example
    by (simp add: msgHi_def cleanContent_examples newContent_def newSuffix_def remote1_def)
       (simp add: js_def)
  have 3: "requests (rateMessage remote1 (js ''89151234567'') msgBye (Some Like)) =
        [GET_recent (normalizePhoneNumber (js ''89151234567'')) (msg_role msgBye)]"
    using C k nc by blast
  have e3: "requests (rateMessage remote1 (js ''89151234567'') msgBye (Some Like)) =
        [GET_recent (js ''79151234567'') Model]"
    using 3 unfolding phone_example by (simp add: msgBye_def)
  have nc': "noCandidate remote1 (GET_recent (js ''79151234567'') Model) (js ''bye'')"
    using nc unfolding phone_example by (simp add: msgBye_def)
  show ?thesis using u phone_anonymous 1 k 2 nc' e3 by blast
qed

text \<open>
  The claim as stated has every call without an id query the store. With a phone that
  canonicalizes to the sentinel no request is sent, although the store holds a row that
  matches.
\<close>

theorem rateMessage_counterexample:
  "find (\<lambda>r. cleanContent (row_content r) = js ''hi'')
      [\<lparr>row_id = 7, row_content = js ''hi[TAG:neutral]''\<rparr>,
       \<lparr>row_id = 5, row_content = js ''hi #liked''\<rparr>] =
     Some \<lparr>row_id = 7, row_content = js ''hi[TAG:neutral]''\<rparr>
   \<and> rateMessage remote1 (js ''+'')
       \<lparr>msg_id = None, msg_role = Model, msg_text = js ''hi'', msg_rating = None\<rparr> (Some Like)
     = \<lparr>requests = [], logged = False\<rparr>"
  by (simp add: rateMessage_def normalize_alt stripNonDigits_def js_def isDigit_def
      cleanContent_def stripTrailingTag_def matchTagHere_def legacyAt_def trimEnd_def isSpace_def)

section \<open>Properties of the flow controller\<close>

subsection \<open>Committing the result\<close>

lemma storage_keys_distinct:
  "STORAGE_KEY_RESULT \<noteq> STORAGE_KEY_USER" "STORAGE_KEY_RESULT \<noteq> js ''user_phone''"
  "STORAGE_KEY_USER \<noteq> js ''user_phone''"
  by (simp_all add: STORAGE_KEY_RESULT_def STORAGE_KEY_USER_def js_def)

lemma finishQuiz_eq:
  "finishQuiz cfg remote reg finalAnswers s =
     (None,
      s\<lparr>isSending := False,
        authError := (if saveSucceeds cfg remote (calculateResults finalAnswers) reg then [] else ERR_SAVE),
        result := Some (calculateResults finalAnswers),
        localStorage := (localStorage s)
          (STORAGE_KEY_RESULT \<mapsto> JSON_result (calculateResults finalAnswers),
           STORAGE_KEY_USER \<mapsto> JSON_user reg,
           js ''user_phone'' \<mapsto> Plain (normalizePhoneNumber (user_phone reg))),
        effects := effects s @
          [SetResult (calculateResults finalAnswers),
           SetItem STORAGE_KEY_RESULT (JSON_result (calculateResults finalAnswers)),
           SetItem STORAGE_KEY_USER (JSON_user reg),
           SetItem (js ''user_phone'') (Plain (normalizePhoneNumber (user_phone reg)))] @
          (if configured cfg then [Fetch (resultRequest (calculateResults finalAnswers) reg)] else []),
        resetTimer := 30\<rparr>)"
  by (simp add: finishQuiz_def Let_def saveResult_pair setItem_def)

text \<open>
  Claim C9. For every final answer set, \<open>finishQuiz\<close> stops without an exception; the
  result is that of \<open>calculateResults\<close>; the result, the profile and the canonical phone
  are in \<open>localStorage\<close> and the result is in the state, and the trace shows the call
  of \<open>setResult\<close> and the three storage writes before the upsert, which is the only
  request (there is none when the store is not configured); the error message is set
  exactly when the save has not succeeded, and the result and the profile are then
  still in place.
\<close>

theorem finishQuiz_commit:
  fixes s :: App and finalAnswers :: Answers and cfg :: Config and remote :: Remote
    and reg :: RegistrationData
  defines "r \<equiv> calculateResults finalAnswers"
  defines "s' \<equiv> snd (finishQuiz cfg remote reg finalAnswers s)"
  shows "fst (finishQuiz cfg remote reg finalAnswers s) = None
       \<and> result s' = Some r
       \<and> localStorage s' STORAGE_KEY_RESULT = Some (JSON_result r)
       \<and> localStorage s' STORAGE_KEY_USER = Some (JSON_user reg)
       \<and> localStorage s' (js ''user_phone'') = Some (Plain (normalizePhoneNumber (user_phone reg)))
       \<and> registration s' = registration s
       \<and> effects s' = effects s @
            [SetResult r, SetItem STORAGE_KEY_RESULT (JSON_result r),
             SetItem STORAGE_KEY_USER (JSON_user reg),
             SetItem (js ''user_phone'') (Plain (normalizePhoneNumber (user_phone reg)))] @
            (if configured cfg then [Fetch (resultRequest r reg)] else [])
       \<and> fst (saveResultToSpreadsheet cfg remote r reg) = Inr (saveSucceeds cfg remote r reg)
       \<and> authError s' = (if saveSucceeds cfg remote r reg then [] else ERR_SAVE)
       \<and> isSending s' = False"
  unfolding s'_def r_def
  by (simp add: finishQuiz_eq saveResult_pair storage_keys_distinct)

subsection \<open>Guards\<close>

lemma handleOptionSelect_guarded:
  "isPulsing s \<or> isAnimating s \<Longrightarrow> handleOptionSelect QS v s = Inr s"
  by (auto simp: handleOptionSelect_def)

lemma dispatch_guarded:
  "isPulsing s \<or> isAnimating s \<Longrightarrow> dispatch QS i s = s"
  by (cases i) (auto simp: clickOption_def clickNext_def clickPrev_def)

lemma inputs_guarded:
  "isPulsing s \<or> isAnimating s \<Longrightarrow> inputs QS ins s = s"
  unfolding inputs_def by (induction ins) (simp_all add: dispatch_guarded)

lemma nav_handlers_animating:
  "isAnimating s \<Longrightarrow> handleNextStep QS s = Inr s \<and> handlePrevStep s = s"
  by (simp add: handleNextStep_def handlePrevStep_def)

lemma clickOption_refused: "\<not> accepts QS s \<Longrightarrow> clickOption QS v s = s"
  by (auto simp: accepts_def clickOption_def handleOptionSelect_def afterHandler_def)

lemma clickOption_accepted:
  assumes "accepts QS s"
  shows "\<exists>qid. questionAt QS (currentStep s) = Some qid \<and>
           clickOption QS v s =
             s\<lparr>answers := (answers s)(qid \<mapsto> v), isPulsing := True,
               timers := timers s @ [(clock s + 400,
                  T_pulse (currentStep s) ((answers s)(qid \<mapsto> v)) (registration s))]\<rparr>"
  using assms
  by (auto simp: accepts_def clickOption_def handleOptionSelect_def afterHandler_def setTimeout_def Let_def)

lemma clickOption_pulsing: "accepts QS s \<Longrightarrow> isPulsing (clickOption QS v s)"
  using clickOption_accepted[of QS s v] by auto

lemma clickOption_guarded: "isPulsing s \<or> isAnimating s \<Longrightarrow> clickOption QS v s = s"
  by (auto simp: clickOption_def)

lemma burst_guarded: "isPulsing s \<or> isAnimating s \<Longrightarrow> burst QS vs s = s"
  unfolding burst_def by (induction vs) (simp_all add: clickOption_guarded)

lemma burst_refused: "\<not> accepts QS s \<Longrightarrow> burst QS vs s = s"
  unfolding burst_def by (induction vs) (simp_all add: clickOption_refused)

lemma burst_first: "burst QS (v # vs) s = clickOption QS v s"
proof (cases "accepts QS s")
  case True
  then have "isPulsing (clickOption QS v s)" by (rule clickOption_pulsing)
  then have "burst QS vs (clickOption QS v s) = clickOption QS v s"
    using burst_guarded by blast
  then show ?thesis by (simp add: burst_def)
next
  case False
  then have "clickOption QS v s = s" by (rule clickOption_refused)
  moreover have "burst QS vs s = s" using False by (rule burst_refused)
  ultimately show ?thesis by (simp add: burst_def)
qed

lemma clickOption_step: "currentStep (clickOption QS v s) = currentStep s"
  by (cases "accepts QS s") (use clickOption_accepted[of QS s v] clickOption_refused[of QS s v] in auto)

lemma timeline_inner:
  assumes i: "idle s" and q: "questionAt QS (currentStep s) = Some qid"
    and n: "currentStep s < int (length QS) - 1"
  shows "fireNext cfg remote QS (inputs QS insB (fireNext cfg remote QS (inputs QS insA (clickOption QS v s))))
       = s\<lparr>answers := (answers s)(qid \<mapsto> v), currentStep := currentStep s + 1, clock := clock s + 700\<rparr>"
proof -
  have acc: "accepts QS s" using i q by (simp add: accepts_def idle_def)
  define s1 where "s1 = s\<lparr>answers := (answers s)(qid \<mapsto> v), isPulsing := True,
               timers := [(clock s + 400, T_pulse (currentStep s) ((answers s)(qid \<mapsto> v)) (registration s))]\<rparr>"
  have c: "clickOption QS v s = s1"
    using clickOption_accepted[OF acc, of v] q i by (simp add: s1_def idle_def)
  have p1: "isPulsing s1" by (simp add: s1_def)
  define s2 where "s2 = s1\<lparr>timers := [(clock s + 700, T_advance)], clock := clock s + 400, isAnimating := True\<rparr>"
  have f1: "fireNext cfg remote QS s1 = s2"
    using n by (simp add: fireNext_def s1_def s2_def setTimeout_def)
  have p2: "isAnimating s2" by (simp add: s2_def)
  have f2: "fireNext cfg remote QS s2 =
      s\<lparr>answers := (answers s)(qid \<mapsto> v), currentStep := currentStep s + 1, clock := clock s + 700\<rparr>"
    using i by (simp add: fireNext_def s1_def s2_def idle_def)
  show ?thesis
    unfolding c using p1 p2 f1 f2 by (simp add: inputs_guarded)
qed

lemma inputs_shattering:
  "isShattering s \<Longrightarrow> inputs QS ins s = s"
proof -
  assume sh: "isShattering s"
  have d: "dispatch QS i s = s" for i
    using sh
    by (cases i) (auto simp: clickOption_def clickNext_def clickPrev_def handleOptionSelect_def
        handleNextStep_def handlePrevStep_def afterHandler_def)
  show ?thesis unfolding inputs_def by (induction ins) (simp_all add: d)
qed

lemma timeline_last:
  assumes i: "idle s" and q: "questionAt QS (currentStep s) = Some qid"
    and n: "currentStep s = int (length QS) - 1"
  shows "fireNext cfg remote QS (inputs QS insC
           (fireNext cfg remote QS
             (fireNext cfg remote QS (inputs QS insA (clickOption QS v s)))))
       = (snd (finishQuiz cfg remote (registration s) ((answers s)(qid \<mapsto> v))
              (s\<lparr>answers := (answers s)(qid \<mapsto> v), currentStep := int (length QS),
                  clock := clock s + 1000\<rparr>)))
           \<lparr>clock := clock s + 2200, view := V_result\<rparr>"
proof -
  have acc: "accepts QS s" using i q by (simp add: accepts_def idle_def)
  define a' where "a' = (answers s)(qid \<mapsto> v)"
  define s1 where "s1 = s\<lparr>answers := a', isPulsing := True,
               timers := [(clock s + 400, T_pulse (currentStep s) a' (registration s))]\<rparr>"
  have c: "clickOption QS v s = s1"
    using clickOption_accepted[OF acc, of v] q i by (simp add: s1_def idle_def a'_def)
  have p1: "isPulsing s1" by (simp add: s1_def)
  define s2 where "s2 = s\<lparr>answers := a', currentStep := int (length QS),
      timers := [(clock s + 1000, T_show100 a' (registration s))], clock := clock s + 400\<rparr>"
  have f1: "fireNext cfg remote QS s1 = s2"
    using n i by (simp add: fireNext_def s1_def s2_def setTimeout_def idle_def)
  define s3 where "s3 = setTimeout T_shatter 1200
      (snd (finishQuiz cfg remote (registration s) a'
         (s\<lparr>answers := a', currentStep := int (length QS), timers := [],
             clock := clock s + 1000, isShattering := True\<rparr>)))"
  have f2: "fireNext cfg remote QS s2 = s3"
    by (simp add: fireNext_def s2_def s3_def finishQuiz_eq)
  have p3: "isShattering s3" by (simp add: s3_def finishQuiz_eq setTimeout_def)
  have f3: "fireNext cfg remote QS s3 =
      (snd (finishQuiz cfg remote (registration s) a'
              (s\<lparr>answers := a', currentStep := int (length QS), clock := clock s + 1000\<rparr>)))
           \<lparr>clock := clock s + 2200, view := V_result\<rparr>"
    using i by (simp add: fireNext_def s3_def finishQuiz_eq setTimeout_def idle_def)
  show ?thesis
    unfolding c a'_def[symmetric] using p1 p3 f1 f2 f3 by (simp add: inputs_guarded inputs_shattering)
qed

text \<open>
  While \<open>isPulsing\<close> or \<open>isAnimating\<close> is set, a call of \<open>handleOptionSelect\<close> changes
  nothing, and every input through the buttons (an answer, next, previous), hence every
  sequence of them, changes nothing. A burst of answer selections is its first click,
  and it leaves the step index as it is: the step moves when the timeouts of that one
  click fire (\<open>timeline_inner\<close>, \<open>timeline_last\<close>).
\<close>

lemma guards_refuse_inputs:
  "(isPulsing s \<or> isAnimating s \<longrightarrow>
        handleOptionSelect QS v s = Inr s \<and> dispatch QS i s = s \<and> inputs QS ins s = s)
   \<and> burst QS (v # vs) s = clickOption QS v s
   \<and> currentStep (burst QS (v # vs) s) = currentStep s"
proof -
  have g: "handleOptionSelect QS v s = Inr s \<and> dispatch QS i s = s \<and> inputs QS ins s = s"
    if "isPulsing s \<or> isAnimating s"
    using that handleOptionSelect_guarded dispatch_guarded inputs_guarded by blast
  have b: "burst QS (v # vs) s = clickOption QS v s" by (rule burst_first)
  have c: "currentStep (burst QS (v # vs) s) = currentStep s"
    unfolding b by (rule clickOption_step)
  show ?thesis using g b c by blast
qed

subsection \<open>The pause before the commit\<close>

lemma saveSucceeds_example: "saveSucceeds cfg0 remote1 r u"
  by (simp add: saveSucceeds_def configured_def cfg0_def remote1_def ok_def js_def)

lemma configured_example: "configured cfg0"
  by (simp add: configured_def cfg0_def js_def)

lemma pause32_eq:
  "pause32 = (quizAt 31)\<lparr>answers := [32 \<mapsto> 5], currentStep := 32,
      timers := [(1000, T_show100 [32 \<mapsto> 5] (registration initialApp))], clock := 400\<rparr>"
  by (simp add: pause32_def fireNext_def clickOption_def handleOptionSelect_def afterHandler_def
      setTimeout_def quizAt_def initialApp_def questionAt_def QS32_def Let_def)

lemma prev_in_pause:
  "dispatch QS32 ClickPrev pause32 = pause32\<lparr>isAnimating := True,
      timers := [(1000, T_show100 [32 \<mapsto> 5] (registration initialApp)), (700, T_retreat)]\<rparr>"
  unfolding pause32_eq
  by (simp add: clickPrev_def handlePrevStep_def displayStep_def setTimeout_def quizAt_def
      initialApp_def QS32_def)

lemma revisit32_eq:
  "revisit32 = (quizAt 31)\<lparr>answers := [32 \<mapsto> 1], isPulsing := True,
      timers := [(1000, T_show100 [32 \<mapsto> 5] (registration initialApp)),
                 (1100, T_pulse 31 [32 \<mapsto> 1] (registration initialApp))], clock := 700\<rparr>"
  unfolding revisit32_def prev_in_pause unfolding pause32_eq
  by (simp add: fireNext_def clickOption_def handleOptionSelect_def afterHandler_def
      setTimeout_def quizAt_def initialApp_def questionAt_def QS32_def Let_def)

lemma staleCommit_facts:
  "answers staleCommit 32 = Some 1" "isPulsing staleCommit" "isShattering staleCommit"
  "result staleCommit = Some (calculateResults [32 \<mapsto> 5])"
  "effects staleCommit =
     [SetResult (calculateResults [32 \<mapsto> 5]),
      SetItem STORAGE_KEY_RESULT (JSON_result (calculateResults [32 \<mapsto> 5])),
      SetItem STORAGE_KEY_USER (JSON_user (registration initialApp)),
      SetItem (js ''user_phone'') (Plain (normalizePhoneNumber (user_phone (registration initialApp)))),
      Fetch (resultRequest (calculateResults [32 \<mapsto> 5]) (registration initialApp))]"
  unfolding staleCommit_def revisit32_eq
  by (simp_all add: fireNext_def finishQuiz_eq setTimeout_def quizAt_def initialApp_def
      configured_example)

lemma raceEnd_facts:
  "view raceEnd = V_result" "timers raceEnd = []"
  "result raceEnd = Some (calculateResults [32 \<mapsto> 1])"
  "effects raceEnd =
     [SetResult (calculateResults [32 \<mapsto> 5]),
      SetItem STORAGE_KEY_RESULT (JSON_result (calculateResults [32 \<mapsto> 5])),
      SetItem STORAGE_KEY_USER (JSON_user (registration initialApp)),
      SetItem (js ''user_phone'') (Plain (normalizePhoneNumber (user_phone (registration initialApp)))),
      Fetch (resultRequest (calculateResults [32 \<mapsto> 5]) (registration initialApp)),
      SetResult (calculateResults [32 \<mapsto> 1]),
      SetItem STORAGE_KEY_RESULT (JSON_result (calculateResults [32 \<mapsto> 1])),
      SetItem STORAGE_KEY_USER (JSON_user (registration initialApp)),
      SetItem (js ''user_phone'') (Plain (normalizePhoneNumber (user_phone (registration initialApp)))),
      Fetch (resultRequest (calculateResults [32 \<mapsto> 1]) (registration initialApp))]"
  unfolding raceEnd_def staleCommit_def revisit32_eq
  by (simp_all add: fireNext_def finishQuiz_eq setTimeout_def quizAt_def initialApp_def
      configured_example QS32_def)

lemma scores_differ:
  "type (calculateResults [32 \<mapsto> 5]) = js ''INFJ''"
  "type (calculateResults [32 \<mapsto> 1]) = js ''ISFJ''"
  by (simp_all add: calculateResults_def getVal_def js_def)

text \<open>
  Claim C7. The claim has every question scored with exactly the value recorded by the
  last accepted click. On the last question the code leaves a pause of 600 ms, between
  the end of \<open>isPulsing\<close> and the start of \<open>isShattering\<close>, in which no guard is set and
  the step index is 32. In the run above the previous button is accepted in that pause
  and then the answer 1 is accepted and recorded, with \<open>isPulsing\<close> set; the timeout of
  the first click then commits the result of the answer 5, which is another type than
  that of the answer 1, and sends it to the store, while the recorded answer is 1. The
  run ends in the result view after a second commit, of the answer 1: two upserts.
\<close>

theorem pause_race:
  "idle (quizAt 31)
   \<and> currentStep pause32 = 32 \<and> answers pause32 32 = Some 5
   \<and> \<not> isAnimating pause32 \<and> \<not> isPulsing pause32 \<and> \<not> isShattering pause32
   \<and> isAnimating (dispatch QS32 ClickPrev pause32)
   \<and> currentStep (fireNext cfg0 remote1 QS32 (dispatch QS32 ClickPrev pause32)) = 31
   \<and> answers revisit32 32 = Some 1 \<and> isPulsing revisit32
   \<and> answers staleCommit 32 = Some 1 \<and> isPulsing staleCommit
   \<and> result staleCommit = Some (calculateResults [32 \<mapsto> 5])
   \<and> effects staleCommit =
       [SetResult (calculateResults [32 \<mapsto> 5]),
        SetItem STORAGE_KEY_RESULT (JSON_result (calculateResults [32 \<mapsto> 5])),
        SetItem STORAGE_KEY_USER (JSON_user (registration initialApp)),
        SetItem (js ''user_phone'')
          (Plain (normalizePhoneNumber (user_phone (registration initialApp)))),
        Fetch (resultRequest (calculateResults [32 \<mapsto> 5]) (registration initialApp))]
   \<and> type (calculateResults [32 \<mapsto> 5]) = js ''INFJ''
   \<and> type (calculateResults [32 \<mapsto> 1]) = js ''ISFJ''
   \<and> view raceEnd = V_result \<and> timers raceEnd = []
   \<and> result raceEnd = Some (calculateResults [32 \<mapsto> 1])
   \<and> effects raceEnd =
       [SetResult (calculateResults [32 \<mapsto> 5]),
        SetItem STORAGE_KEY_RESULT (JSON_result (calculateResults [32 \<mapsto> 5])),
        SetItem STORAGE_KEY_USER (JSON_user (registration initialApp)),
        SetItem (js ''user_phone'')
          (Plain (normalizePhoneNumber (user_phone (registration initialApp)))),
        Fetch (resultRequest (calculateResults [32 \<mapsto> 5]) (registration initialApp)),
        SetResult (calculateResults [32 \<mapsto> 1]),
        SetItem STORAGE_KEY_RESULT (JSON_result (calculateResults [32 \<mapsto> 1])),
        SetItem STORAGE_KEY_USER (JSON_user (registration initialApp)),
        SetItem (js ''user_phone'')
          (Plain (normalizePhoneNumber (user_phone (registration initialApp)))),
        Fetch (resultRequest (calculateResults [32 \<mapsto> 1]) (registration initialApp))]"
proof -
  have i: "idle (quizAt 31)"
    by (simp add: idle_def quizAt_def initialApp_def)
  have p: "currentStep pause32 = 32" "answers pause32 32 = Some 5" "\<not> isAnimating pause32"
    "\<not> isPulsing pause32" "\<not> isShattering pause32"
    unfolding pause32_eq by (simp_all add: quizAt_def initialApp_def)
  have b: "isAnimating (dispatch QS32 ClickPrev pause32)"
    unfolding prev_in_pause by simp
  have c: "currentStep (fireNext cfg0 remote1 QS32 (dispatch QS32 ClickPrev pause32)) = 31"
    unfolding prev_in_pause unfolding pause32_eq
    by (simp add: fireNext_def quizAt_def initialApp_def)
  have r: "answers revisit32 32 = Some 1" "isPulsing revisit32"
    unfolding revisit32_eq by simp_all
  show ?thesis
    using i p b c r staleCommit_facts(1,2,4,5) scores_differ raceEnd_facts by simp
qed

subsection \<open>The next button on the last question\<close>

lemma handleNextStep_last:
  assumes "currentStep s = int (length QS) - 1" "questionAt QS (currentStep s) = Some qid"
    "answers s qid = Some a"
  shows "handleNextStep QS s =
     (if isAnimating s \<or> isSending s \<or> isShattering s then Inr s else handleOptionSelect QS a s)"
  using assms by (simp add: handleNextStep_def)

lemma clickNext_last:
  assumes "currentStep s = int (length QS) - 1" "questionAt QS (currentStep s) = Some qid"
    "answers s qid = Some a"
  shows "clickNext QS s = (if isSending s then s else clickOption QS a s)"
  using assms
  by (auto simp: clickNext_def clickOption_def currentAnswer_def displayStep_def
      handleNextStep_def handleOptionSelect_def afterHandler_def)

text \<open>
  Claim C8, as the code has it. On the last question with its answer recorded,
  \<open>handleNextStep\<close> returns at once under \<open>isAnimating\<close>, \<open>isSending\<close> or \<open>isShattering\<close> and
  is otherwise the call of \<open>handleOptionSelect\<close> with the recorded answer; so it equals
  that call whenever \<open>isSending\<close> is clear or \<open>isShattering\<close> is set with it (as it is
  while \<open>finishQuiz\<close> runs), and the next button equals the click on the recorded answer
  whenever \<open>isSending\<close> is clear.
\<close>

theorem handleNextStep_commit:
  assumes "currentStep s = int (length QS) - 1" "questionAt QS (currentStep s) = Some qid"
    "answers s qid = Some a"
  shows "handleNextStep QS s =
           (if isAnimating s \<or> isSending s \<or> isShattering s then Inr s
            else handleOptionSelect QS a s)
       \<and> ((isSending s \<longrightarrow> isShattering s) \<longrightarrow>
            handleNextStep QS s = handleOptionSelect QS a s)
       \<and> clickNext QS s = (if isSending s then s else clickOption QS a s)"
  using handleNextStep_last[OF assms] clickNext_last[OF assms]
  by (auto simp: handleOptionSelect_def)

text \<open>The theorem on the last of thirty-two questions, answered, with \<open>isSending\<close> clear.\<close>

theorem handleNextStep_commit_witness:
  "currentStep lastAnswered = int (length QS32) - 1
   \<and> questionAt QS32 (currentStep lastAnswered) = Some 32
   \<and> answers lastAnswered 32 = Some 4
   \<and> \<not> isSending lastAnswered
   \<and> handleNextStep QS32 lastAnswered = handleOptionSelect QS32 4 lastAnswered
   \<and> clickNext QS32 lastAnswered = clickOption QS32 4 lastAnswered"
proof -
  have 0: "currentStep lastAnswered = int (length QS32) - 1"
    "questionAt QS32 (currentStep lastAnswered) = Some 32"
    "answers lastAnswered 32 = Some 4"
    by (simp_all add: lastAnswered_def quizAt_def initialApp_def questionAt_def QS32_def)
  have s: "\<not> isSending lastAnswered"
    by (simp add: lastAnswered_def quizAt_def initialApp_def)
  note T = handleNextStep_commit[OF 0]
  have 1: "handleNextStep QS32 lastAnswered = handleOptionSelect QS32 4 lastAnswered"
    using T s by blast
  have 2: "clickNext QS32 lastAnswered = clickOption QS32 4 lastAnswered"
    using T s by simp
  show ?thesis using 0 s 1 2 by blast
qed

text \<open>
  The claim as stated has the two entry points identical in every state. With
  \<open>isSending\<close> set and no other flag, \<open>handleNextStep\<close> returns at once and the selection
  starts the commit.
\<close>

theorem handleNextStep_commit_counterexample:
  "currentStep (lastAnswered\<lparr>isSending := True\<rparr>) = int (length QS32) - 1
   \<and> questionAt QS32 (currentStep (lastAnswered\<lparr>isSending := True\<rparr>)) = Some 32
   \<and> answers (lastAnswered\<lparr>isSending := True\<rparr>) 32 = Some 4
   \<and> handleNextStep QS32 (lastAnswered\<lparr>isSending := True\<rparr>) = Inr (lastAnswered\<lparr>isSending := True\<rparr>)
   \<and> handleOptionSelect QS32 4 (lastAnswered\<lparr>isSending := True\<rparr>) =
        Inr (lastAnswered\<lparr>isSending := True, isPulsing := True,
               timers := [(400, T_pulse 31 [32 \<mapsto> 4] (registration initialApp))]\<rparr>)
   \<and> handleNextStep QS32 (lastAnswered\<lparr>isSending := True\<rparr>)
        \<noteq> handleOptionSelect QS32 4 (lastAnswered\<lparr>isSending := True\<rparr>)"
proof -
  have 1: "handleNextStep QS32 (lastAnswered\<lparr>isSending := True\<rparr>) = Inr (lastAnswered\<lparr>isSending := True\<rparr>)"
    by (simp add: handleNextStep_def)
  have 2: "handleOptionSelect QS32 4 (lastAnswered\<lparr>isSending := True\<rparr>) =
        Inr (lastAnswered\<lparr>isSending := True, isPulsing := True,
               timers := [(400, T_pulse 31 [32 \<mapsto> 4] (registration initialApp))]\<rparr>)"
    by (simp add: handleOptionSelect_def lastAnswered_def quizAt_def initialApp_def questionAt_def
        QS32_def setTimeout_def Let_def)
  have 3: "handleNextStep QS32 (lastAnswered\<lparr>isSending := True\<rparr>)
        \<noteq> handleOptionSelect QS32 4 (lastAnswered\<lparr>isSending := True\<rparr>)"
  proof
    assume "handleNextStep QS32 (lastAnswered\<lparr>isSending := True\<rparr>)
        = handleOptionSelect QS32 4 (lastAnswered\<lparr>isSending := True\<rparr>)"
    then have "lastAnswered\<lparr>isSending := True\<rparr> = lastAnswered\<lparr>isSending := True, isPulsing := True,
               timers := [(400, T_pulse 31 [32 \<mapsto> 4] (registration initialApp))]\<rparr>"
      unfolding 1 2 by simp
    then have "isPulsing (lastAnswered\<lparr>isSending := True\<rparr>) = isPulsing (lastAnswered\<lparr>isSending := True, isPulsing := True,
               timers := [(400, T_pulse 31 [32 \<mapsto> 4] (registration initialApp))]\<rparr>)"
      by simp
    then show False by (simp add: lastAnswered_def quizAt_def initialApp_def)
  qed
  have 0: "currentStep (lastAnswered\<lparr>isSending := True\<rparr>) = int (length QS32) - 1"
    "questionAt QS32 (currentStep (lastAnswered\<lparr>isSending := True\<rparr>)) = Some 32"
    "answers (lastAnswered\<lparr>isSending := True\<rparr>) 32 = Some 4"
    by (simp_all add: lastAnswered_def quizAt_def initialApp_def questionAt_def QS32_def)
  show ?thesis using 0 1 2 3 by blast
qed

end
